theory Spec2Isabelle
  imports Complex_Main "HOL-Library.Word" "HOL-Library.Monad_Syntax"
begin

section \<open>The paced transport-stream writer of tswrite.c\<close>

text \<open>
  A shallow embedding of the parts of \<^verbatim>\<open>tswrite.c\<close> that the specification's claims are
  about: the command reader, the packet-dropping gate of \<^verbatim>\<open>tswrite_write\<close>, the circular
  buffer, the producer's time stamping, the consumer's pacing loop and the sink writers.

  Conventions of the embedding.
  \<^item> A C \<^verbatim>\<open>int\<close> is an Isabelle \<open>int\<close>: signed overflow is undefined in C, and the
    values concerned (ring indices, counters, byte counts) stay far from the limits.
    \<^verbatim>\<open>uint32_t\<close> and \<^verbatim>\<open>uint64_t\<close> are \<open>32 word\<close> and \<open>64 word\<close>, so their arithmetic wraps;
    an \<^verbatim>\<open>int32_t\<close> obtained from an unsigned difference is read with \<open>sint\<close>.
  \<^item> A static local variable of a C function is a field of a record that the function
    takes and returns.
  \<^item> What a system call returns (\<^verbatim>\<open>read\<close>, \<^verbatim>\<open>send\<close>, \<^verbatim>\<open>fwrite\<close>, \<^verbatim>\<open>gettimeofday\<close>) is an
    argument of the model; what is handed to the system is part of its result.
  \<^item> A field whose C name is an Isabelle keyword or a HOL constant carries a
    prime (\<open>end'\<close>, \<open>size'\<close>, \<open>length'\<close>).
\<close>

subsection \<open>Commands (read_command)\<close>

text \<open>
  Modelled from the spec: the \<^verbatim>\<open>COMMAND_...\<close> constants are declared in a header that is not
  among the sources; the specification lists the commands (section 3, TsWriter, and the
  table of section 4.5). They are kept symbolic, one constructor per constant that
  \<^verbatim>\<open>read_command\<close> and \<^verbatim>\<open>tswrite_build\<close> name.
\<close>

datatype command =
    COMMAND_NOT_A_COMMAND
  | COMMAND_QUIT
  | COMMAND_NORMAL
  | COMMAND_PAUSE
  | COMMAND_FAST
  | COMMAND_FAST_FAST
  | COMMAND_REVERSE
  | COMMAND_FAST_REVERSE
  | COMMAND_SKIP_FORWARD
  | COMMAND_SKIP_BACKWARD
  | COMMAND_SKIP_FORWARD_LOTS
  | COMMAND_SKIP_BACKWARD_LOTS
  | COMMAND_SELECT_FILE_0
  | COMMAND_SELECT_FILE_1
  | COMMAND_SELECT_FILE_2
  | COMMAND_SELECT_FILE_3
  | COMMAND_SELECT_FILE_4
  | COMMAND_SELECT_FILE_5
  | COMMAND_SELECT_FILE_6
  | COMMAND_SELECT_FILE_7
  | COMMAND_SELECT_FILE_8
  | COMMAND_SELECT_FILE_9

text \<open>
  What \<^verbatim>\<open>read(command_socket,&thing,1)\<close> gave: length 0 (end of file), length -1 (an
  error), or one byte.
\<close>

datatype read_result = Read_EOF | Read_error | Read_byte char

text \<open>
  \<^verbatim>\<open>read_command\<close>: the result is the value returned, \<^verbatim>\<open>*command\<close> and
  \<^verbatim>\<open>*command_changed\<close> on exit. The \<^verbatim>\<open>switch\<close> is the chain of comparisons, in the
  order of its cases; the newline case and the default case change nothing.
\<close>

definition read_command :: "read_result \<Rightarrow> command \<Rightarrow> bool \<Rightarrow> int \<times> command \<times> bool" where
  "read_command r command command_changed =
     (case r of
        Read_EOF \<Rightarrow> (0, COMMAND_QUIT, True)
      | Read_error \<Rightarrow> (0, COMMAND_QUIT, True)
      | Read_byte thing \<Rightarrow>
          if thing = CHR ''q'' then (0, COMMAND_QUIT, True)
          else if thing = CHR ''n'' then (0, COMMAND_NORMAL, True)
          else if thing = CHR ''p'' then (0, COMMAND_PAUSE, True)
          else if thing = CHR ''f'' then (0, COMMAND_FAST, True)
          else if thing = CHR ''F'' then (0, COMMAND_FAST_FAST, True)
          else if thing = CHR ''r'' then (0, COMMAND_REVERSE, True)
          else if thing = CHR ''R'' then (0, COMMAND_FAST_REVERSE, True)
          else if thing = CHR ''>'' then (0, COMMAND_SKIP_FORWARD, True)
          else if thing = CHR ''<'' then (0, COMMAND_SKIP_BACKWARD, True)
          else if thing = CHR '']'' then (0, COMMAND_SKIP_FORWARD_LOTS, True)
          else if thing = CHR ''['' then (0, COMMAND_SKIP_BACKWARD_LOTS, True)
          else if thing = CHR ''0'' then (0, COMMAND_SELECT_FILE_0, True)
          else if thing = CHR ''1'' then (0, COMMAND_SELECT_FILE_1, True)
          else if thing = CHR ''2'' then (0, COMMAND_SELECT_FILE_2, True)
          else if thing = CHR ''3'' then (0, COMMAND_SELECT_FILE_3, True)
          else if thing = CHR ''4'' then (0, COMMAND_SELECT_FILE_4, True)
          else if thing = CHR ''5'' then (0, COMMAND_SELECT_FILE_5, True)
          else if thing = CHR ''6'' then (0, COMMAND_SELECT_FILE_6, True)
          else if thing = CHR ''7'' then (0, COMMAND_SELECT_FILE_7, True)
          else if thing = CHR ''8'' then (0, COMMAND_SELECT_FILE_8, True)
          else if thing = CHR ''9'' then (0, COMMAND_SELECT_FILE_9, True)
          else if thing = CHR 0x0A then (0, command, command_changed)
          else (0, command, command_changed))"

text \<open>
  The table of section 4.5 of the specification, written from its rows: the bytes that are
  commands and the command each one stands for. Newline and every other byte are not in it.
\<close>

definition spec_command_table :: "(char \<times> command) list" where
  "spec_command_table =
     [(CHR ''q'', COMMAND_QUIT), (CHR ''n'', COMMAND_NORMAL), (CHR ''p'', COMMAND_PAUSE),
      (CHR ''f'', COMMAND_FAST), (CHR ''F'', COMMAND_FAST_FAST), (CHR ''r'', COMMAND_REVERSE),
      (CHR ''R'', COMMAND_FAST_REVERSE), (CHR ''>'', COMMAND_SKIP_FORWARD),
      (CHR ''<'', COMMAND_SKIP_BACKWARD), (CHR '']'', COMMAND_SKIP_FORWARD_LOTS),
      (CHR ''['', COMMAND_SKIP_BACKWARD_LOTS),
      (CHR ''0'', COMMAND_SELECT_FILE_0), (CHR ''1'', COMMAND_SELECT_FILE_1),
      (CHR ''2'', COMMAND_SELECT_FILE_2), (CHR ''3'', COMMAND_SELECT_FILE_3),
      (CHR ''4'', COMMAND_SELECT_FILE_4), (CHR ''5'', COMMAND_SELECT_FILE_5),
      (CHR ''6'', COMMAND_SELECT_FILE_6), (CHR ''7'', COMMAND_SELECT_FILE_7),
      (CHR ''8'', COMMAND_SELECT_FILE_8), (CHR ''9'', COMMAND_SELECT_FILE_9)]"

subsection \<open>The packet-dropping gate of tswrite_write\<close>

text \<open>
  Modelled from the spec: the enumeration \<^verbatim>\<open>TS_WRITER_TYPE\<close> is declared in a header that is
  not among the sources; the specification names the sink variants Stdout, File, Tcp and
  Udp, and \<^verbatim>\<open>tswrite_write\<close> has a default case for any other value.
\<close>

datatype TS_WRITER_TYPE = TS_W_UNDEFINED | TS_W_STDOUT | TS_W_FILE | TS_W_TCP | TS_W_UDP

text \<open>
  The fields of \<^verbatim>\<open>struct TS_writer\<close> that \<^verbatim>\<open>tswrite_write\<close> reads or writes. \<open>has_writer\<close> tells
  whether \<^verbatim>\<open>tswriter->writer\<close> is set (buffered output) or \<^verbatim>\<open>NULL\<close>.
\<close>

record TS_writer =
  how :: TS_WRITER_TYPE
  has_writer :: bool
  count :: int
  drop_packets :: int
  drop_number :: int

text \<open>The two static counters inside \<^verbatim>\<open>tswrite_write\<close>, both initially 0.\<close>

record drop_statics =
  packet_count :: int
  drop_count :: int

definition drop_statics_init :: drop_statics where
  "drop_statics_init = \<lparr>packet_count = 0, drop_count = 0\<rparr>"

text \<open>The function of this file that a call hands its packet to.\<close>

datatype sink_call =
    To_write_file_data
  | To_write_tcp_data
  | To_write_socket_data
  | To_write_to_buffered_TS_output

text \<open>
  \<^verbatim>\<open>tswrite_write\<close>. The argument \<open>err\<close> is what the function that receives the packet
  returns (it is not looked at when no function receives it). The result is the value
  returned, the writer, the static counters, and the function the packet was handed to
  (\<open>None\<close>: the packet was handed to nothing).

  The first \<^verbatim>\<open>if\<close> is the dropping gate: two of its three branches return 0 at once.
  In the buffered case \<^verbatim>\<open>(tswriter->count)++\<close> is an argument of the call, so the count
  advances whatever the call returns.
\<close>

definition tswrite_write ::
  "TS_writer \<Rightarrow> drop_statics \<Rightarrow> int \<Rightarrow> int \<times> TS_writer \<times> drop_statics \<times> sink_call option" where
  "tswrite_write tswriter st err =
     (let gate =
        (if drop_packets tswriter \<noteq> 0 then
           (if drop_count st > 0 then
              (True, st\<lparr>drop_count := drop_count st - 1\<rparr>)
            else if packet_count st < drop_packets tswriter then
              (False, st\<lparr>packet_count := packet_count st + 1\<rparr>)
            else
              (True, st\<lparr>packet_count := 0, drop_count := drop_number tswriter - 1\<rparr>))
         else (False, st))
      in
        if fst gate then (0, tswriter, snd gate, None)
        else if \<not> has_writer tswriter then
          (case how tswriter of
             TS_W_STDOUT \<Rightarrow>
               if err \<noteq> 0 then (1, tswriter, snd gate, Some To_write_file_data)
               else (0, tswriter\<lparr>count := count tswriter + 1\<rparr>, snd gate, Some To_write_file_data)
           | TS_W_FILE \<Rightarrow>
               if err \<noteq> 0 then (1, tswriter, snd gate, Some To_write_file_data)
               else (0, tswriter\<lparr>count := count tswriter + 1\<rparr>, snd gate, Some To_write_file_data)
           | TS_W_TCP \<Rightarrow>
               if err \<noteq> 0 then (err, tswriter, snd gate, Some To_write_tcp_data)
               else (0, tswriter\<lparr>count := count tswriter + 1\<rparr>, snd gate, Some To_write_tcp_data)
           | TS_W_UDP \<Rightarrow>
               if err \<noteq> 0 then (1, tswriter, snd gate, Some To_write_socket_data)
               else (0, tswriter\<lparr>count := count tswriter + 1\<rparr>, snd gate, Some To_write_socket_data)
           | TS_W_UNDEFINED \<Rightarrow> (1, tswriter, snd gate, None))
        else
          (if err \<noteq> 0
           then (1, tswriter\<lparr>count := count tswriter + 1\<rparr>, snd gate,
                 Some To_write_to_buffered_TS_output)
           else (0, tswriter\<lparr>count := count tswriter + 1\<rparr>, snd gate,
                 Some To_write_to_buffered_TS_output)))"

text \<open>
  A sequence of calls on one writer, one \<open>err\<close> per call: the value each call returns, the
  packet count before and after it, and where its packet went.
\<close>

fun tswrite_writes ::
  "TS_writer \<Rightarrow> drop_statics \<Rightarrow> int list \<Rightarrow> (int \<times> int \<times> int \<times> sink_call option) list" where
  "tswrite_writes tswriter st [] = []"
| "tswrite_writes tswriter st (err # errs) =
     (case tswrite_write tswriter st err of
        (r, tswriter', st', out) \<Rightarrow>
          (r, count tswriter, count tswriter', out) # tswrite_writes tswriter' st' errs)"

text \<open>
  Where the static counters stand after \<open>p\<close> calls of a cycle of \<open>n\<close> forwarded and \<open>m\<close>
  dropped packets (\<open>0 \<le> p < n + m\<close>): used to state the cycle, not part of the program.
\<close>

definition cycle_statics :: "int \<Rightarrow> int \<Rightarrow> int \<Rightarrow> drop_statics" where
  "cycle_statics n m p =
     (if p \<le> n then \<lparr>packet_count = p, drop_count = 0\<rparr>
      else \<lparr>packet_count = 0, drop_count = n + m - p\<rparr>)"


subsection \<open>The circular buffer\<close>

text \<open>
  C's \<^verbatim>\<open>%\<close> truncates towards zero; on the operands that arise here (a non-negative
  index and a positive size) it agrees with \<open>mod\<close>.
\<close>

definition c_rem :: "int \<Rightarrow> int \<Rightarrow> int" where
  "c_rem a b = a - b * (sgn a * sgn b * (\<bar>a\<bar> div \<bar>b\<bar>))"

abbreviation TS_PACKET_SIZE :: int where
  "TS_PACKET_SIZE \<equiv> 188"

text \<open>
  A region of bytes, addressed by the offset from a pointer into it. The offset is an
  \<open>int\<close>: \<^verbatim>\<open>write_socket_data\<close> can step in front of its pointer.
\<close>

type_synonym bytes = "int \<Rightarrow> 8 word"

definition memcpy :: "bytes \<Rightarrow> int \<Rightarrow> bytes \<Rightarrow> int \<Rightarrow> bytes" where
  "memcpy dst off src n = (\<lambda>a. if off \<le> a \<and> a < off + n then src (a - off) else dst a)"

text \<open>
  The structures are declared in a header that is not among the sources; the fields are
  those that the functions of \<^verbatim>\<open>tswrite.c\<close> use, with the types they are used at. The header
  array \<^verbatim>\<open>item\<close> is indexed by slot, the byte array \<^verbatim>\<open>item_data\<close> by byte offset (slot
  \<open>i\<close> starts at \<open>i * item_size\<close>).
\<close>

record circular_buffer_item =
  time :: "32 word"
  discontinuity :: bool
  length' :: int

record circular_buffer =
  start :: int
  end' :: int
  size' :: int
  TS_in_item :: int
  item_size :: int
  maxnowait :: int
  waitfor :: int
  item :: "int \<Rightarrow> circular_buffer_item"
  item_data :: bytes

text \<open>
  \<^verbatim>\<open>map_circular_buffer\<close>; \<open>mapped\<close> tells whether \<^verbatim>\<open>mmap\<close> succeeded (if not the function
  returns 1 and there is no buffer). Anonymous shared memory starts out as zeros.
\<close>

definition map_circular_buffer ::
  "bool \<Rightarrow> int \<Rightarrow> int \<Rightarrow> int \<Rightarrow> int \<Rightarrow> circular_buffer option" where
  "map_circular_buffer mapped circ_buf_size TS_in_packet maxnowait' waitfor' =
     (if \<not> mapped then None
      else Some \<lparr>start = 1, end' = 0, size' = circ_buf_size, TS_in_item = TS_in_packet,
                 item_size = TS_in_packet * TS_PACKET_SIZE,
                 maxnowait = maxnowait', waitfor = waitfor',
                 item = (\<lambda>_. \<lparr>time = 0, discontinuity = False, length' = 0\<rparr>),
                 item_data = (\<lambda>_. 0)\<rparr>)"

definition circular_buffer_empty :: "circular_buffer \<Rightarrow> bool" where
  "circular_buffer_empty circular \<longleftrightarrow>
     start circular = c_rem (end' circular + 1) (size' circular)"

definition circular_buffer_full :: "circular_buffer \<Rightarrow> bool" where
  "circular_buffer_full circular \<longleftrightarrow>
     c_rem (end' circular + 2) (size' circular) = start circular"

text \<open>
  The three waiting functions (\<^verbatim>\<open>wait_if_buffer_full\<close>, \<^verbatim>\<open>wait_if_buffer_empty\<close>,
  \<^verbatim>\<open>wait_for_buffer_to_fill\<close>) poll the shared indices and sleep in between. A function of
  the model that starts with such a wait describes one call on a buffer that nobody else
  changes meanwhile: if the condition waited for holds, the wait returns 0 at once and the
  call goes on; if not, the call is \<open>Polling\<close> and has not returned (it goes on when the
  other process has moved its index; the producer's wait gives up, returning 1, after
  \<^verbatim>\<open>PARENT_GIVE_UP_AFTER\<close> polls, the consumer's waits never give up).

  \<open>Running\<close>: the call is in a loop around a system call and the results recorded for
  that system call are used up. \<open>Unmodelled\<close>: the call did arithmetic that the model
  does not follow (see the next subsection).
\<close>

datatype 'a outcome = Returned 'a | Polling | Running | Unmodelled

subsection \<open>Time stamps (set_buffer_item_time)\<close>

text \<open>
  The rate controller computes in \<^verbatim>\<open>double\<close>. The model computes in the real numbers: it
  follows which quantities the code combines and how, not their rounding. Two things that
  a \<^verbatim>\<open>double\<close> does and a real number cannot are kept out of the model: a division by zero
  (the code would go on with an infinity or a NaN) and a conversion to an unsigned integer
  of a value that the type cannot hold (undefined in C). Both give \<open>None\<close>.
\<close>

definition fdiv :: "real \<Rightarrow> real \<Rightarrow> real option" where
  "fdiv x y = (if y = 0 then None else Some (x / y))"

text \<open>A conversion \<^verbatim>\<open>(uint32_t) x\<close> or \<^verbatim>\<open>(uint64_t) x\<close>: the fraction is discarded.\<close>

definition trunc :: "real \<Rightarrow> int" where
  "trunc x = (if 0 \<le> x then \<lfloor>x\<rfloor> else - \<lfloor>- x\<rfloor>)"

definition to_uint32 :: "real \<Rightarrow> 32 word option" where
  "to_uint32 x = (if 0 \<le> trunc x \<and> trunc x < 2 ^ 32 then Some (word_of_int (trunc x)) else None)"

definition to_uint64 :: "real \<Rightarrow> 64 word option" where
  "to_uint64 x = (if 0 \<le> trunc x \<and> trunc x < 2 ^ 64 then Some (word_of_int (trunc x)) else None)"

text \<open>What the producer remembers of each packet of the item it is filling.\<close>

record TS_packet_info =
  index :: int
  pid :: "32 word"
  got_pcr :: bool
  pcr :: "64 word"

text \<open>
  \<^verbatim>\<open>struct buffered_TS_output\<close>. The array \<^verbatim>\<open>packet\<close> has \<^verbatim>\<open>MAX_TS_PACKETS_IN_ITEM\<close> entries
  in C; here it is indexed by any natural number.
\<close>

record buffered_TS_output =
  buffer :: circular_buffer
  started :: bool
  which :: int
  num_packets :: int
  rate :: int
  use_pcrs :: bool
  prime_size :: int
  prime_speedup :: int
  pcr_scale :: real
  packet :: "nat \<Rightarrow> TS_packet_info"

text \<open>
  The static variables of \<^verbatim>\<open>set_buffer_item_time_pcr\<close> and, last, the one of
  \<^verbatim>\<open>set_buffer_item_time_plain\<close>.
\<close>

record time_statics =
  available_bytes :: int
  available_time :: real
  last_pcr_index :: int
  last_pcr :: "64 word"
  pcr_rate :: real
  last_timestamp_near_PCR :: "32 word"
  last_timestamp :: "32 word"
  had_first_pcr :: bool
  had_second_pcr :: bool
  initial_prime_time :: real
  initial_prime_bytes :: int
  total_available_bytes :: int
  total_available_time :: real
  num_availables :: int
  last_time :: "32 word"

definition time_statics_init :: time_statics where
  "time_statics_init =
     \<lparr>available_bytes = 0, available_time = 0, last_pcr_index = - 1, last_pcr = 0,
      pcr_rate = 0, last_timestamp_near_PCR = 0, last_timestamp = 0,
      had_first_pcr = False, had_second_pcr = False,
      initial_prime_time = 0, initial_prime_bytes = 0,
      total_available_bytes = 0, total_available_time = 0, num_availables = 0,
      last_time = 0\<rparr>"

text \<open>
  \<^verbatim>\<open>set_buffer_item_time_pcr\<close>, first part: a rate below 1 is replaced by the writer's
  rate, and an exhausted credit pool is primed.
\<close>

definition set_buffer_item_time_pcr_prime ::
  "buffered_TS_output \<Rightarrow> time_statics \<Rightarrow> time_statics option" where
  "set_buffer_item_time_pcr_prime writer st0 =
     (let st = (if pcr_rate st0 < 1 then st0\<lparr>pcr_rate := real_of_int (rate writer)\<rparr> else st0)
      in
        if available_bytes st \<le> 0 \<or> available_time st \<le> 0 then
          do {
            let bytes = TS_PACKET_SIZE * TS_in_item (buffer writer) * prime_size writer;
            t \<leftarrow> fdiv (real_of_int bytes * 1000000)
                       (pcr_rate st * real_of_int (prime_speedup writer) / 100);
            let st' = st\<lparr>available_bytes := bytes, available_time := t\<rparr>;
            Some (if \<not> had_second_pcr st'
                  then st'\<lparr>initial_prime_time := t, initial_prime_bytes := bytes\<rparr>
                  else st')
          }
        else Some st)"

text \<open>The loop that looks for the first packet of the item that carries a PCR.\<close>

definition find_pcr :: "buffered_TS_output \<Rightarrow> nat option" where
  "find_pcr writer = List.find (\<lambda>ii. got_pcr (packet writer ii)) [0..<nat (num_packets writer)]"

text \<open>
  The time that the item takes at the prevailing conditions
  (\<^verbatim>\<open>num_microseconds\<close>), from the primed statics.
\<close>

definition num_microseconds :: "buffered_TS_output \<Rightarrow> time_statics \<Rightarrow> real option" where
  "num_microseconds writer st =
     do {
       q \<leftarrow> fdiv (real_of_int (TS_PACKET_SIZE * num_packets writer))
                  (real_of_int (available_bytes st));
       Some (q * available_time st)
     }"

text \<open>
  \<^verbatim>\<open>set_buffer_item_time_pcr\<close>, the part under \<^verbatim>\<open>if (found_pcr)\<close>: \<open>ii\<close> is the packet with
  the PCR, \<open>timestamp\<close> the time just given to the item.
\<close>

definition set_buffer_item_time_pcr_found ::
  "buffered_TS_output \<Rightarrow> nat \<Rightarrow> 32 word \<Rightarrow> time_statics \<Rightarrow> time_statics option" where
  "set_buffer_item_time_pcr_found writer ii timestamp st =
     do {
       let this = packet writer ii;
       st' \<leftarrow>
         (if pcr this < last_pcr st then
            Some (st\<lparr>had_first_pcr := False, had_second_pcr := False,
                     available_bytes := 0, available_time := 0\<rparr>)
          else if \<not> had_first_pcr st then
            Some (st\<lparr>had_first_pcr := True\<rparr>)
          else
            do {
              let delta_pcr = pcr this - last_pcr st;
              let delta_bytes = (index this - last_pcr_index st) * TS_PACKET_SIZE;
              q \<leftarrow> fdiv (real_of_int delta_bytes * 27) (real (unat delta_pcr));
              let new_rate = q * 1000000;
              let extra_bytes = delta_bytes;
              extra_time \<leftarrow> fdiv (real_of_int extra_bytes * 1000000) new_rate;
              let st1 = st\<lparr>pcr_rate := new_rate,
                            available_bytes := available_bytes st + extra_bytes,
                            available_time := available_time st + extra_time\<rparr>;
              let st2 = st1\<lparr>total_available_bytes := total_available_bytes st1 + available_bytes st1,
                             total_available_time := total_available_time st1 + available_time st1,
                             num_availables := num_availables st1 + 1\<rparr>;
              if \<not> had_second_pcr st2 then
                do {
                  t \<leftarrow> fdiv (real_of_int (initial_prime_bytes st2) * 1000000) new_rate;
                  Some (st2\<lparr>available_time := available_time st2 - initial_prime_time st2 + t,
                            total_available_bytes := 0, total_available_time := 0,
                            num_availables := 0, had_second_pcr := True\<rparr>)
                }
              else Some st2
            });
       Some (st'\<lparr>last_timestamp_near_PCR := timestamp, last_pcr := pcr this,
                 last_pcr_index := index this\<rparr>)
     }"

text \<open>The assignment \<^verbatim>\<open>circular->item[writer->which].time = t\<close>.\<close>

definition set_item_time :: "buffered_TS_output \<Rightarrow> 32 word \<Rightarrow> buffered_TS_output" where
  "set_item_time writer t =
     writer\<lparr>buffer := (buffer writer)
       \<lparr>item := (item (buffer writer))
          (which writer := (item (buffer writer) (which writer))\<lparr>time := t\<rparr>)\<rparr>\<rparr>"

definition set_buffer_item_time_pcr ::
  "buffered_TS_output \<Rightarrow> time_statics \<Rightarrow> (buffered_TS_output \<times> time_statics) option" where
  "set_buffer_item_time_pcr writer st0 =
     do {
       st1 \<leftarrow> set_buffer_item_time_pcr_prime writer st0;
       let num_bytes = TS_PACKET_SIZE * num_packets writer;
       us \<leftarrow> num_microseconds writer st1;
       timestamp \<leftarrow> to_uint32 (real (unat (last_timestamp st1)) + us);
       let st2 = st1\<lparr>available_bytes := available_bytes st1 - num_bytes,
                     available_time := available_time st1 - us\<rparr>;
       st3 \<leftarrow> (case find_pcr writer of
                 None \<Rightarrow> Some st2
               | Some ii \<Rightarrow> set_buffer_item_time_pcr_found writer ii timestamp st2);
       Some (set_item_time writer timestamp, st3\<lparr>last_timestamp := timestamp\<rparr>)
     }"

definition set_buffer_item_time_plain ::
  "buffered_TS_output \<Rightarrow> time_statics \<Rightarrow> (buffered_TS_output \<times> time_statics) option" where
  "set_buffer_item_time_plain writer st =
     do {
       let num_bytes = num_packets writer * TS_PACKET_SIZE;
       x \<leftarrow> fdiv (real_of_int num_bytes * 1000000) (real_of_int (rate writer));
       elapsed_time \<leftarrow> to_uint32 x;
       let t = last_time st + elapsed_time;
       Some (set_item_time writer t, st\<lparr>last_time := t\<rparr>)
     }"

definition set_buffer_item_time ::
  "buffered_TS_output \<Rightarrow> time_statics \<Rightarrow> (buffered_TS_output \<times> time_statics) option" where
  "set_buffer_item_time writer st =
     (if use_pcrs writer then set_buffer_item_time_pcr writer st
      else set_buffer_item_time_plain writer st)"

subsection \<open>The producer: filling and committing items\<close>

text \<open>
  \<^verbatim>\<open>build_buffered_TS_output\<close>; \<open>allocated\<close> and \<open>mapped\<close> tell whether \<^verbatim>\<open>malloc\<close> and
  \<^verbatim>\<open>mmap\<close> succeeded. What \<^verbatim>\<open>malloc\<close> leaves in the fields that the function does not set
  is taken to be zero.
\<close>

definition build_buffered_TS_output ::
  "bool \<Rightarrow> bool \<Rightarrow> int \<Rightarrow> int \<Rightarrow> int \<Rightarrow> int \<Rightarrow> int \<Rightarrow> bool \<Rightarrow> int \<Rightarrow> int \<Rightarrow> real
     \<Rightarrow> buffered_TS_output option" where
  "build_buffered_TS_output allocated mapped circ_buf_size TS_in_packet maxnowait' waitfor'
       rate' use_pcrs' prime_size' prime_speedup' pcr_scale' =
     (if \<not> allocated then None
      else
        case map_circular_buffer mapped circ_buf_size TS_in_packet maxnowait' waitfor' of
          None \<Rightarrow> None
        | Some circular \<Rightarrow>
            Some \<lparr>buffer = circular, started = False,
                  which = c_rem (end' circular + 1) (size' circular),
                  num_packets = 0, rate = rate', use_pcrs = use_pcrs',
                  prime_size = prime_size', prime_speedup = prime_speedup',
                  pcr_scale = pcr_scale',
                  packet = (\<lambda>_. \<lparr>index = 0, pid = 0, got_pcr = False, pcr = 0\<rparr>)\<rparr>)"

text \<open>
  \<^verbatim>\<open>internal_flush_buffered_TS_output\<close>: stamps the open item, makes it visible
  (\<^verbatim>\<open>circular->end = writer->which\<close>) and moves on to the next slot.
\<close>

definition internal_flush_buffered_TS_output ::
  "buffered_TS_output \<Rightarrow> time_statics \<Rightarrow> (buffered_TS_output \<times> time_statics) option" where
  "internal_flush_buffered_TS_output writer st =
     do {
       (w1, st1) \<leftarrow> set_buffer_item_time writer st;
       let circular = (buffer w1)\<lparr>end' := which w1\<rparr>;
       Some (w1\<lparr>buffer := circular,
                which := c_rem (end' circular + 1) (size' circular),
                started := False,
                num_packets := 0,
                packet := (packet w1)(0 := (packet w1 0)\<lparr>got_pcr := False\<rparr>)\<rparr>,
             st1)
     }"

text \<open>
  \<^verbatim>\<open>add_eof_entry\<close>: the result is the value returned, the writer and the statics.
\<close>

definition add_eof_entry ::
  "buffered_TS_output \<Rightarrow> time_statics \<Rightarrow> (int \<times> buffered_TS_output \<times> time_statics) outcome" where
  "add_eof_entry writer st =
     (if circular_buffer_full (buffer writer) then Polling
      else
        let data_pos = c_rem (end' (buffer writer) + 1) (size' (buffer writer)) in
        case set_buffer_item_time writer st of
          None \<Rightarrow> Unmodelled
        | Some (w1, st1) \<Rightarrow>
            let circular = buffer w1;
                circular1 = circular\<lparr>item_data :=
                               (item_data circular)(data_pos * item_size circular := 1)\<rparr>;
                circular2 = circular1\<lparr>item :=
                               (item circular1)(data_pos := (item circular1 data_pos)\<lparr>length' := 1\<rparr>)\<rparr>;
                circular3 = circular2\<lparr>end' := data_pos\<rparr>
            in Returned (0, w1\<lparr>buffer := circular3\<rparr>, st1))"

definition write_EOF_to_buffered_TS_output ::
  "buffered_TS_output \<Rightarrow> time_statics \<Rightarrow> (int \<times> buffered_TS_output \<times> time_statics) outcome" where
  "write_EOF_to_buffered_TS_output writer st =
     (let len = length' (item (buffer writer) (which writer)) in
      case (if started writer \<and> len > 0 then internal_flush_buffered_TS_output writer st
            else Some (writer, st)) of
        None \<Rightarrow> Unmodelled
      | Some (w1, st1) \<Rightarrow>
          (case add_eof_entry w1 st1 of
             Returned (err, w2, st2) \<Rightarrow>
               if err \<noteq> 0 then Returned (1, w2, st2) else Returned (0, w2, st2)
           | Polling \<Rightarrow> Polling
           | Running \<Rightarrow> Running
           | Unmodelled \<Rightarrow> Unmodelled))"

text \<open>
  \<^verbatim>\<open>write_to_buffered_TS_output\<close>: \<open>packet'\<close> is the TS packet, \<open>count'\<close> its index in the
  stream, \<open>pid'\<close>, \<open>got_pcr'\<close> and \<open>pcr'\<close> as in C.
\<close>

definition write_to_buffered_TS_output ::
  "buffered_TS_output \<Rightarrow> time_statics \<Rightarrow> bytes \<Rightarrow> int \<Rightarrow> 32 word \<Rightarrow> bool \<Rightarrow> 64 word
     \<Rightarrow> (int \<times> buffered_TS_output \<times> time_statics) outcome" where
  "write_to_buffered_TS_output writer st packet' count' pid' got_pcr' pcr' =
     (if \<not> started writer \<and> circular_buffer_full (buffer writer) then Polling
      else
        let slot = which writer;
            w1 = (if \<not> started writer
                  then writer\<lparr>started := True, num_packets := 0,
                         buffer := (buffer writer)\<lparr>item :=
                           (item (buffer writer))
                             (slot := (item (buffer writer) slot)\<lparr>length' := 0\<rparr>)\<rparr>\<rparr>
                  else writer);
            circular = buffer w1;
            len = length' (item circular slot);
            circular1 = circular\<lparr>item_data :=
                           memcpy (item_data circular) (slot * item_size circular + len)
                             packet' TS_PACKET_SIZE\<rparr>;
            circular2 = circular1\<lparr>item :=
                           (item circular1)
                             (slot := (item circular1 slot)\<lparr>length' := len + TS_PACKET_SIZE\<rparr>)\<rparr>
        in
          case (if got_pcr' then to_uint64 (real (unat pcr') * pcr_scale w1) else Some 0) of
            None \<Rightarrow> Unmodelled
          | Some scaled \<Rightarrow>
              let w2 = w1\<lparr>buffer := circular2,
                          packet := (packet w1)
                            (nat (num_packets w1) :=
                               \<lparr>index = count', pid = pid', got_pcr = got_pcr', pcr = scaled\<rparr>),
                          num_packets := num_packets w1 + 1\<rparr>
              in
                if length' (item circular2 slot) = item_size circular2 then
                  (case internal_flush_buffered_TS_output w2 st of
                     None \<Rightarrow> Unmodelled
                   | Some (w3, st3) \<Rightarrow> Returned (0, w3, st3))
                else Returned (0, w2, st))"

subsection \<open>The sinks\<close>

text \<open>
  \<^verbatim>\<open>write_file_data\<close>: \<open>written\<close> is what \<^verbatim>\<open>fwrite\<close> returns, the number of bytes that
  went to the file. The result is the value returned and those bytes.
\<close>

definition write_file_data :: "bytes \<Rightarrow> int \<Rightarrow> int \<Rightarrow> int \<times> 8 word list" where
  "write_file_data data data_len written =
     (if written \<noteq> data_len then (1, map data [0..written - 1])
      else (0, map data [0..written - 1]))"

text \<open>
  What one call of \<^verbatim>\<open>send\<close> gives: the number of bytes it took, or -1 with \<^verbatim>\<open>errno\<close>
  either \<^verbatim>\<open>ENOBUFS\<close> or something else.
\<close>

datatype send_result = Sent int | Send_ENOBUFS | Send_error

text \<open>
  The loop of \<^verbatim>\<open>write_socket_data\<close>. One element of \<open>sends\<close> is used by each call of
  \<^verbatim>\<open>send\<close>; \<open>acc\<close> collects the byte arrays that \<^verbatim>\<open>send\<close> took, in order. After
  \<^verbatim>\<open>ENOBUFS\<close> the code runs on to \<^verbatim>\<open>left -= written; start += written\<close> with \<^verbatim>\<open>written\<close>
  being -1. \<open>None\<close>: the loop is still running when the list is used up.
\<close>

fun write_socket_data_loop ::
  "bytes \<Rightarrow> int \<Rightarrow> int \<Rightarrow> send_result list \<Rightarrow> 8 word list list
     \<Rightarrow> (int \<times> 8 word list list) option" where
  "write_socket_data_loop data left start' sends acc =
     (if left > 0 then
        (case sends of
           [] \<Rightarrow> None
         | Sent written # rest \<Rightarrow>
             write_socket_data_loop data (left - written) (start' + written) rest
               (acc @ [map data [start'..start' + written - 1]])
         | Send_ENOBUFS # rest \<Rightarrow>
             write_socket_data_loop data (left - (- 1)) (start' + (- 1)) rest acc
         | Send_error # rest \<Rightarrow> Some (1, acc))
      else Some (0, acc))"

definition write_socket_data ::
  "bytes \<Rightarrow> int \<Rightarrow> send_result list \<Rightarrow> (int \<times> 8 word list list) option" where
  "write_socket_data data data_len sends =
     (if data 0 \<noteq> 0x47 then Some (0, [])
      else write_socket_data_loop data data_len 0 sends [])"

subsection \<open>The consumer: write_from_circular\<close>

text \<open>
  \<^verbatim>\<open>received_EOF\<close>: the answer and the buffer (the slot is given up when the answer is yes).
\<close>

definition received_EOF :: "circular_buffer \<Rightarrow> bool \<times> circular_buffer" where
  "received_EOF circular =
     (let first_byte = item_data circular (start circular * item_size circular);
          len = length' (item circular (start circular))
      in if len = 1 \<and> first_byte = 1
         then (True, circular\<lparr>start := c_rem (start circular + 1) (size' circular)\<rparr>)
         else (False, circular))"

text \<open>
  \<^verbatim>\<open>write_circular_data\<close>: the item at \<^verbatim>\<open>start\<close> goes to \<^verbatim>\<open>write_socket_data\<close>, whose
  result is ignored; the first byte of the slot is cleared and the slot given up. The
  result is the value returned (always 0), the buffer and the byte arrays that \<^verbatim>\<open>send\<close>
  took.
\<close>

definition write_circular_data ::
  "circular_buffer \<Rightarrow> send_result list \<Rightarrow> (int \<times> circular_buffer \<times> 8 word list list) option" where
  "write_circular_data circular sends =
     (let base = start circular * item_size circular;
          len = length' (item circular (start circular))
      in case write_socket_data (\<lambda>i. item_data circular (base + i)) len sends of
           None \<Rightarrow> None
         | Some (err, sent) \<Rightarrow>
             Some (0,
                   circular\<lparr>item_data := (item_data circular)(base := 0),
                            start := c_rem (start circular + 1) (size' circular)\<rparr>,
                   sent))"

record timeval =
  tv_sec :: int
  tv_usec :: int

text \<open>
  The static variables of \<^verbatim>\<open>write_from_circular\<close>. The C names of \<open>start_tv\<close> and
  \<open>count_items\<close> are \<^verbatim>\<open>start\<close> and \<^verbatim>\<open>count\<close>, which are fields of other structures here.
  \<^verbatim>\<open>delta_start\<close> is an \<^verbatim>\<open>int32_t\<close> that is only ever added to and assigned from unsigned
  values: it is kept as the word.
\<close>

record consumer_statics =
  starting :: bool
  reset :: bool
  last_packet_time :: "32 word"
  start_tv :: timeval
  delta_start :: "32 word"
  sent_without_delay :: int
  count_items :: "32 word"

definition consumer_statics_init :: consumer_statics where
  "consumer_statics_init =
     \<lparr>starting = True, reset = True, last_packet_time = 0,
      start_tv = \<lparr>tv_sec = 0, tv_usec = 0\<rparr>, delta_start = 0,
      sent_without_delay = 0, count_items = 0\<rparr>"

text \<open>
  \<^verbatim>\<open>our_time_now\<close>: the time since \<^verbatim>\<open>start\<close>, in microseconds, as an \<^verbatim>\<open>uint32_t\<close>, with the
  perturbation added when \<^verbatim>\<open>global_perturb_range\<close> is not zero. \<open>now\<close> is what
  \<^verbatim>\<open>gettimeofday\<close> gave and \<open>perturb\<close> what \<^verbatim>\<open>perturb_time_by\<close> returns.
\<close>

definition our_time_now :: "nat \<Rightarrow> consumer_statics \<Rightarrow> timeval \<Rightarrow> 32 word \<Rightarrow> 32 word" where
  "our_time_now global_perturb_range st now perturb =
     (let t = (word_of_int ((tv_sec now - tv_sec (start_tv st)) * 1000000
                            + (tv_usec now - tv_usec (start_tv st))) :: 32 word)
      in if global_perturb_range \<noteq> 0 then t + perturb else t)"

text \<open>
  \<^verbatim>\<open>waitfor = this_packet_time - adjusted_now\<close>: the difference of two \<^verbatim>\<open>uint32_t\<close>, read
  as an \<^verbatim>\<open>int32_t\<close>.
\<close>

definition notional_wait ::
  "nat \<Rightarrow> circular_buffer \<Rightarrow> consumer_statics \<Rightarrow> timeval \<Rightarrow> 32 word \<Rightarrow> int" where
  "notional_wait global_perturb_range circular st now perturb =
     (let this_packet_time = time (item circular (start circular));
          adjusted_now = our_time_now global_perturb_range st now perturb + delta_start st
      in sint (this_packet_time - adjusted_now))"

text \<open>
  The part of \<^verbatim>\<open>write_from_circular\<close> between the test for end of file and the call of
  \<^verbatim>\<open>write_circular_data\<close>: it decides how long to wait before the item at \<^verbatim>\<open>start\<close> is
  written. The result is the value of \<^verbatim>\<open>waitfor\<close> at the last \<^verbatim>\<open>if (waitfor > 0)\<close>, where
  \<^verbatim>\<open>wait_microseconds(waitfor)\<close> is called if it is positive, and the statics. The four
  steps are: the time line (reset or \<^verbatim>\<open>waitfor = this_packet_time - adjusted_now\<close>), the
  decision on lateness, the limit on sends without delay, and the wait itself.
\<close>

definition write_from_circular_waitfor ::
  "nat \<Rightarrow> circular_buffer \<Rightarrow> consumer_statics \<Rightarrow> timeval \<Rightarrow> 32 word \<Rightarrow> int \<times> consumer_statics" where
  "write_from_circular_waitfor global_perturb_range circular st now perturb =
     (let this_packet_time = time (item circular (start circular));
          step1 =
            (if reset st \<or> discontinuity (item circular (start circular)) then
               (0, st\<lparr>start_tv := now, delta_start := this_packet_time, reset := False\<rparr>)
             else (notional_wait global_perturb_range circular st now perturb, st));
          step2 =
            (if fst step1 > 0 then step1
             else if fst step1 > - 200000 then (0, snd step1)
             else if global_perturb_range = 0 then (0, (snd step1)\<lparr>reset := True\<rparr>)
             else step1);
          step3 =
            (if fst step2 = 0 \<and> maxnowait circular \<noteq> - 1 then
               (if sent_without_delay (snd step2) < maxnowait circular
                then (fst step2,
                      (snd step2)\<lparr>sent_without_delay := sent_without_delay (snd step2) + 1\<rparr>)
                else (waitfor circular, snd step2))
             else step2)
      in if fst step3 > 0 then (fst step3, (snd step3)\<lparr>sent_without_delay := 0\<rparr>)
         else step3)"

text \<open>
  \<^verbatim>\<open>write_from_circular\<close>, one call. The result is the value returned, whether
  \<^verbatim>\<open>*had_eof\<close> was set, the buffer, the statics, the argument of \<^verbatim>\<open>wait_microseconds\<close> if
  it was called, and the byte arrays that \<^verbatim>\<open>send\<close> took.
\<close>

definition write_from_circular ::
  "nat \<Rightarrow> circular_buffer \<Rightarrow> consumer_statics \<Rightarrow> timeval \<Rightarrow> 32 word \<Rightarrow> send_result list
     \<Rightarrow> (int \<times> bool \<times> circular_buffer \<times> consumer_statics \<times> int option \<times> 8 word list list) outcome"
  where
  "write_from_circular global_perturb_range circular st0 now perturb sends =
     (let st = st0\<lparr>count_items := count_items st0 + 1\<rparr> in
      if starting st \<and> \<not> circular_buffer_full circular then Polling
      else if \<not> starting st \<and> circular_buffer_empty circular then Polling
      else
        let st1 = st\<lparr>starting := False\<rparr> in
        if fst (received_EOF circular)
        then Returned (0, True, snd (received_EOF circular), st1, None, [])
        else
            let this_packet_time = time (item circular (start circular));
                paced = write_from_circular_waitfor global_perturb_range circular st1 now perturb;
                slept = (if fst paced > 0 then Some (fst paced) else None)
            in case write_circular_data circular sends of
                 None \<Rightarrow> Running
               | Some (err, circular2, sent) \<Rightarrow>
                   if err \<noteq> 0 then Returned (1, False, circular2, snd paced, slept, sent)
                   else Returned (0, False, circular2,
                                  (snd paced)\<lparr>last_packet_time := this_packet_time\<rparr>,
                                  slept, sent))"

text \<open>
  \<^verbatim>\<open>tswrite_child_process\<close>: the loop around \<^verbatim>\<open>write_from_circular\<close>, on a buffer that the
  producer has stopped changing. Each element of the list holds what one iteration gets
  from the system: the time, the perturbation and the results of \<^verbatim>\<open>send\<close>. The result is
  the value returned, the buffer, the statics, and for each item written the wait before it
  and the byte arrays sent.
\<close>

fun tswrite_child_process ::
  "nat \<Rightarrow> circular_buffer \<Rightarrow> consumer_statics \<Rightarrow> (timeval \<times> 32 word \<times> send_result list) list
     \<Rightarrow> (int \<times> circular_buffer \<times> consumer_statics \<times> (int option \<times> 8 word list list) list) outcome"
  where
  "tswrite_child_process global_perturb_range circular st [] = Running"
| "tswrite_child_process global_perturb_range circular st ((now, perturb, sends) # rest) =
     (case write_from_circular global_perturb_range circular st now perturb sends of
        Returned (err, had_eof, circular1, st1, slept, sent) \<Rightarrow>
          if err \<noteq> 0 then Returned (1, circular1, st1, [])
          else if had_eof then Returned (0, circular1, st1, [])
          else
            (case tswrite_child_process global_perturb_range circular1 st1 rest of
               Returned (r, circular2, st2, evs) \<Rightarrow> Returned (r, circular2, st2, (slept, sent) # evs)
             | Polling \<Rightarrow> Polling
             | Running \<Rightarrow> Running
             | Unmodelled \<Rightarrow> Unmodelled)
      | Polling \<Rightarrow> Polling
      | Running \<Rightarrow> Running
      | Unmodelled \<Rightarrow> Unmodelled)"


subsection \<open>The two processes together\<close>

text \<open>
  The producer (the parent process) and the consumer (the child) share the circular
  buffer and run side by side. A state of the two together holds the producer's writer
  (with the shared buffer in it) and statics, the consumer's statics, and whether the
  producer has written the end-of-file item. The two counters are not in the program: they
  count the items committed (\<^verbatim>\<open>end\<close> moved) and given up (\<^verbatim>\<open>start\<close> moved).

  A state is reachable if it arises from \<^verbatim>\<open>build_buffered_TS_output\<close> by calls that
  return, in any order: \<^verbatim>\<open>write_to_buffered_TS_output\<close>, the two halves of
  \<^verbatim>\<open>write_EOF_to_buffered_TS_output\<close> (the flush of an open item that holds data, and
  \<^verbatim>\<open>add_eof_entry\<close>), and \<^verbatim>\<open>write_from_circular\<close>. Each call is taken as one step: a
  call changes only its own index, at its end, after the test it began with, and the other
  process can only make that test more true meanwhile (the consumer makes room, the
  producer adds items).
\<close>

record system =
  producer :: buffered_TS_output
  producer_statics :: time_statics
  consumer :: consumer_statics
  eof_written :: bool
  committed :: nat
  released :: nat

inductive reachable :: "int \<Rightarrow> system \<Rightarrow> bool" for n :: int where
  built:
    "build_buffered_TS_output True True n k mnw wtf rt up ps psu sc = Some w
     \<Longrightarrow> reachable n \<lparr>producer = w, producer_statics = time_statics_init,
                       consumer = consumer_statics_init, eof_written = False,
                       committed = 0, released = 0\<rparr>"
| written:
    "reachable n s \<Longrightarrow> \<not> eof_written s
     \<Longrightarrow> write_to_buffered_TS_output (producer s) (producer_statics s) pk i pd gp pc
           = Returned (r, w', st')
     \<Longrightarrow> reachable n (s\<lparr>producer := w', producer_statics := st',
                          committed := committed s + (if started w' then 0 else 1)\<rparr>)"
| flushed:
    "reachable n s \<Longrightarrow> \<not> eof_written s
     \<Longrightarrow> started (producer s)
     \<Longrightarrow> 0 < length' (item (buffer (producer s)) (which (producer s)))
     \<Longrightarrow> internal_flush_buffered_TS_output (producer s) (producer_statics s) = Some (w', st')
     \<Longrightarrow> reachable n (s\<lparr>producer := w', producer_statics := st',
                          committed := committed s + 1\<rparr>)"
| ended:
    "reachable n s \<Longrightarrow> \<not> eof_written s
     \<Longrightarrow> \<not> (started (producer s)
             \<and> 0 < length' (item (buffer (producer s)) (which (producer s))))
     \<Longrightarrow> add_eof_entry (producer s) (producer_statics s) = Returned (r, w', st')
     \<Longrightarrow> reachable n (s\<lparr>producer := w', producer_statics := st', eof_written := True,
                          committed := committed s + 1\<rparr>)"
| read:
    "reachable n s
     \<Longrightarrow> write_from_circular rng (buffer (producer s)) (consumer s) now perturb sends
           = Returned (r, had_eof, circular', cst', slept, sent)
     \<Longrightarrow> reachable n (s\<lparr>producer := (producer s)\<lparr>buffer := circular'\<rparr>, consumer := cst',
                          released := released s + 1\<rparr>)"

text \<open>
  What the indices have to do with the counters: with \<open>d\<close> items committed and not yet
  given up, \<^verbatim>\<open>start\<close> is \<open>d\<close> slots before the slot after \<^verbatim>\<open>end\<close>, and \<open>d\<close> is at most
  \<open>n - 1\<close>; the producer's slot is the one after \<^verbatim>\<open>end\<close>, and while an item is open
  there, fewer than \<open>n - 1\<close> items are waiting.
\<close>

definition ring_invariant :: "int \<Rightarrow> system \<Rightarrow> bool" where
  "ring_invariant n s \<longleftrightarrow>
     (let circular = buffer (producer s);
          d = int (committed s) - int (released s)
      in size' circular = n
         \<and> 0 \<le> end' circular \<and> end' circular < n
         \<and> 0 \<le> d \<and> d \<le> n - 1
         \<and> start circular = (end' circular + 1 - d) mod n
         \<and> (\<not> eof_written s \<longrightarrow> which (producer s) = (end' circular + 1) mod n)
         \<and> (\<not> eof_written s \<and> started (producer s) \<longrightarrow> d < n - 1))"

subsection \<open>Inputs of the examples\<close>

text \<open>
  A buffer of four slots with one TS packet per item, the default limit of 30 sends
  without delay and the default wait of 1000 microseconds. Two items are waiting
  (\<open>start = 1\<close>, \<open>end' = 2\<close>); every slot holds 188 bytes \<open>0x47\<close> stamped 5000.
\<close>

definition example_circular :: circular_buffer where
  "example_circular =
     \<lparr>start = 1, end' = 2, size' = 4, TS_in_item = 1, item_size = 188,
      maxnowait = 30, waitfor = 1000,
      item = (\<lambda>_. \<lparr>time = 5000, discontinuity = False, length' = 188\<rparr>),
      item_data = (\<lambda>_. 0x47)\<rparr>"


text \<open>
  The consumer's statics in the middle of a run: its time line starts at time 0 with
  \<^verbatim>\<open>delta_start = 0\<close>, and \<open>n\<close> items have gone out without delay.
\<close>

definition example_statics :: "int \<Rightarrow> consumer_statics" where
  "example_statics n =
     \<lparr>starting = False, reset = False, last_packet_time = 0,
      start_tv = \<lparr>tv_sec = 0, tv_usec = 0\<rparr>, delta_start = 0,
      sent_without_delay = n, count_items = 1\<rparr>"

text \<open>
  A producer that writes TS packets without PCRs one after the other, as a caller of
  \<^verbatim>\<open>tswrite_write\<close> does on buffered output; \<open>n\<close> is the index of the first packet. It
  stops at the first call that does not return 0.
\<close>

fun write_packets ::
  "buffered_TS_output \<Rightarrow> time_statics \<Rightarrow> int \<Rightarrow> bytes list
     \<Rightarrow> (int \<times> buffered_TS_output \<times> time_statics) outcome" where
  "write_packets writer st n [] = Returned (0, writer, st)"
| "write_packets writer st n (pk # pks) =
     (case write_to_buffered_TS_output writer st pk n 0 False 0 of
        Returned (err, w1, st1) \<Rightarrow>
          if err \<noteq> 0 then Returned (1, w1, st1) else write_packets w1 st1 (n + 1) pks
      | Polling \<Rightarrow> Polling
      | Running \<Rightarrow> Running
      | Unmodelled \<Rightarrow> Unmodelled)"

text \<open>A packet of 188 bytes \<open>0x47\<close>.\<close>

definition example_packet :: bytes where
  "example_packet = (\<lambda>_. 0x47)"

text \<open>
  Buffered output with a circular buffer of the given size, one TS packet per item and
  otherwise the defaults of \<^verbatim>\<open>tswrite_process_args\<close>: at most 30 sends without delay, a
  wait of 1000 microseconds, 250000 bytes per second, timing by PCRs, a prime size of 10
  items at 100 percent, PCRs not scaled.
\<close>

definition example_writer :: "int \<Rightarrow> buffered_TS_output option" where
  "example_writer circ_buf_size =
     build_buffered_TS_output True True circ_buf_size 1 30 1000 250000 True 10 100 1"



text \<open>
  A full item of seven TS packets on a writer that does not use PCRs, with the default
  buffer of 100 slots and the default rate of 250000 bytes per second.
\<close>

definition example_plain_item :: buffered_TS_output where
  "example_plain_item =
     (the (build_buffered_TS_output True True 100 7 30 1000 250000 False 10 100 1))
       \<lparr>started := True, num_packets := 7\<rparr>"

text \<open>
  A full item of one TS packet on the writer \<open>example_writer 4\<close>; the packet has index
  \<open>i\<close> in the stream and carries the PCR \<open>p\<close>.
\<close>

definition example_pcr_item :: "int \<Rightarrow> 64 word \<Rightarrow> buffered_TS_output" where
  "example_pcr_item i p =
     (the (example_writer 4))
       \<lparr>started := True, num_packets := 1,
        packet := (\<lambda>_. \<lparr>index = i, pid = 0, got_pcr = True, pcr = p\<rparr>)\<rparr>"

section \<open>Properties\<close>

subsection \<open>C9: read_command\<close>

text \<open>
  C9. For every byte that \<^verbatim>\<open>read_command\<close> reads: a byte of the command table of section 4.5
  sets the command to the table's entry and the changed flag to true; newline and every
  byte that is not in the table leave the command and the flag as they were; on end of
  file and on a read error the command becomes Quit and the flag true. In all cases the
  function returns 0.
\<close>

theorem read_command_table:
  "read_command (Read_byte b) c ch =
     (case map_of spec_command_table b of
        Some k \<Rightarrow> (0, k, True)
      | None \<Rightarrow> (0, c, ch))
   \<and> map_of spec_command_table (CHR 0x0A) = None
   \<and> read_command Read_EOF c ch = (0, COMMAND_QUIT, True)
   \<and> read_command Read_error c ch = (0, COMMAND_QUIT, True)"
  by (simp add: read_command_def spec_command_table_def)

theorem read_command_table_witness:
  "read_command (Read_byte (CHR ''f'')) COMMAND_PAUSE False = (0, COMMAND_FAST, True)
   \<and> read_command (Read_byte (CHR ''x'')) COMMAND_PAUSE False = (0, COMMAND_PAUSE, False)
   \<and> read_command (Read_byte (CHR 0x0A)) COMMAND_PAUSE False = (0, COMMAND_PAUSE, False)"
  using read_command_table [of "CHR ''f''" COMMAND_PAUSE False]
    read_command_table [of "CHR ''x''" COMMAND_PAUSE False]
    read_command_table [of "CHR 0x0A" COMMAND_PAUSE False]
  by (simp add: spec_command_table_def)

subsection \<open>C10: the cycle of forwarded and dropped packets\<close>

text \<open>
  One call at position \<open>p\<close> of the cycle: the static counters move to position \<open>p + 1\<close>
  (modulo the length of the cycle); at the first \<open>n\<close> positions the packet passes the gate,
  at the others the call returns 0 and leaves the writer as it was.
\<close>

lemma tswrite_write_cycle_step:
  assumes "0 < n" "0 < m" "drop_packets tw = n" "drop_number tw = m" "0 \<le> p" "p < n + m"
    and "tswrite_write tw (cycle_statics n m p) err = (r, tw', st', out)"
  shows "st' = cycle_statics n m ((p + 1) mod (n + m))
       \<and> drop_packets tw' = n \<and> drop_number tw' = m \<and> has_writer tw' = has_writer tw \<and> how tw' = how tw
       \<and> (if p < n then (has_writer tw \<or> how tw \<noteq> TS_W_UNDEFINED \<longrightarrow> out \<noteq> None)
          else r = 0 \<and> tw' = tw \<and> out = None)"
proof -
  have m1: "(p + 1) mod (n + m) = (if p + 1 = n + m then 0 else p + 1)"
    using assms(1,2,5,6) by (auto simp: mod_pos_pos_trivial)
  show ?thesis
    using assms m1
    by (auto simp: tswrite_write_def cycle_statics_def Let_def split: if_splits TS_WRITER_TYPE.splits)
qed

lemma tswrite_writes_cycle:
  assumes "0 < n" "0 < m"
  shows "drop_packets tw = n \<Longrightarrow> drop_number tw = m \<Longrightarrow> has_writer tw \<or> how tw \<noteq> TS_W_UNDEFINED
     \<Longrightarrow> 0 \<le> p \<Longrightarrow> p < n + m \<Longrightarrow> i < length errs
     \<Longrightarrow> (case tswrite_writes tw (cycle_statics n m p) errs ! i of
           (r, c_before, c_after, out) \<Rightarrow>
             if (p + int i) mod (n + m) < n then out \<noteq> None
             else r = 0 \<and> out = None \<and> c_after = c_before)"
proof (induction errs arbitrary: tw p i)
  case Nil
  then show ?case by simp
next
  case (Cons err errs)
  obtain r tw' st' out where step: "tswrite_write tw (cycle_statics n m p) err = (r, tw', st', out)"
    by (metis prod_cases4)
  note facts = tswrite_write_cycle_step [OF assms Cons.prems(1,2,4,5) step]
  show ?case
  proof (cases i)
    case 0
    have "p mod (n + m) = p" using Cons.prems by simp
    then show ?thesis using 0 step facts Cons.prems by (auto split: if_splits)
  next
    case (Suc j)
    let ?p' = "(p + 1) mod (n + m)"
    have nm: "0 < n + m" using assms by simp
    have p'0: "0 \<le> ?p'" and p'1: "?p' < n + m" using nm by simp_all
    have w': "has_writer tw' \<or> how tw' \<noteq> TS_W_UNDEFINED" using facts Cons.prems(3) by simp
    have j: "j < length errs" using Cons.prems Suc by simp
    have ih: "case tswrite_writes tw' (cycle_statics n m ?p') errs ! j of
           (r, c_before, c_after, out) \<Rightarrow>
             if (?p' + int j) mod (n + m) < n then out \<noteq> None
             else r = 0 \<and> out = None \<and> c_after = c_before"
      using Cons.IH [of tw' ?p' j] facts w' p'0 p'1 j by simp
    have "(?p' + int j) mod (n + m) = (p + 1 + int j) mod (n + m)"
      by (rule mod_add_left_eq)
    also have "p + 1 + int j = p + int i" using Suc by simp
    finally have "(?p' + int j) mod (n + m) = (p + int i) mod (n + m)" .
    then show ?thesis using ih Suc step facts by simp
  qed
qed

text \<open>
  With \<open>drop_packets = n > 0\<close> and \<open>drop_number = m > 0\<close> the calls follow the cycle of the
  claim: call number \<open>i\<close> (from 0) hands its packet on when \<open>i mod (n + m) < n\<close>, and
  otherwise returns 0, hands the packet to nothing and leaves the packet count alone.
\<close>

lemma tswrite_write_drop_cycle:
  assumes "0 < drop_packets tw" "0 < drop_number tw" "has_writer tw \<or> how tw \<noteq> TS_W_UNDEFINED"
    "i < length errs"
  shows "case tswrite_writes tw drop_statics_init errs ! i of
           (r, c_before, c_after, out) \<Rightarrow>
             if int i mod (drop_packets tw + drop_number tw) < drop_packets tw then out \<noteq> None
             else r = 0 \<and> out = None \<and> c_after = c_before"
proof -
  have "drop_statics_init = cycle_statics (drop_packets tw) (drop_number tw) 0"
    using assms(1) by (simp add: drop_statics_init_def cycle_statics_def)
  then show ?thesis
    using tswrite_writes_cycle [OF assms(1,2) refl refl assms(3) _ _ assms(4), of 0] assms(1,2)
    by simp
qed

text \<open>
  C10. The claim gives the cycle for every \<open>drop_number = m\<close>: \<open>n\<close> packets forwarded, then
  \<open>m\<close> dropped. With \<open>drop_packets = 1\<close> and \<open>drop_number = 0\<close> it says that no packet is
  dropped. The code drops every second packet: the branch that ends a run of forwarded
  packets drops the packet in hand before it looks at \<open>drop_number\<close>. Four calls on a file
  writer, all of whose writes succeed: the second and the fourth return 0 with the packet
  handed to nothing and the count unchanged.
\<close>

theorem tswrite_write_drop_number_zero:
  "tswrite_writes \<lparr>how = TS_W_FILE, has_writer = False, count = 0, drop_packets = 1, drop_number = 0\<rparr>
      drop_statics_init [0, 0, 0, 0]
   = [(0, 0, 1, Some To_write_file_data), (0, 1, 1, None),
      (0, 1, 2, Some To_write_file_data), (0, 2, 2, None)]"
  by (simp add: tswrite_write_def drop_statics_init_def)

subsection \<open>C2: what the consumer does about lateness\<close>





lemmas consumer_example_defs =
  write_from_circular_def write_circular_data_def write_socket_data_def received_EOF_def
  write_from_circular_waitfor_def notional_wait_def our_time_now_def
  circular_buffer_empty_def circular_buffer_full_def c_rem_def
  example_circular_def example_statics_def Let_def



subsection \<open>C3: the limit on sends without delay\<close>








text \<open>
  The same with the perturbation on (range 1): an item that is 0.3 s late keeps its
  negative \<^verbatim>\<open>waitfor\<close>, so neither the limit nor the wait applies to it, however many
  items have gone out without delay.
\<close>

lemma sends_without_delay_perturbed:
  "write_from_circular_waitfor 1 example_circular (example_statics 30)
     \<lparr>tv_sec = 0, tv_usec = 305000\<rparr> 0
   = (- 300000, example_statics 30)"
  by (simp add: consumer_example_defs)

subsection \<open>C8: the sync byte of what is sent\<close>

lemma upto_append_from_0:
  "0 \<le> s \<Longrightarrow> 0 \<le> n \<Longrightarrow> [0..s - 1] @ [s..s + n - 1] = [0..s + n - 1]"
proof (cases "s = 0")
  case True
  then show ?thesis by simp
next
  case False
  assume "0 \<le> s" "0 \<le> n"
  with False have "0 \<le> s - 1" "s - 1 \<le> s + n - 1" by simp_all
  from upto_split2 [OF this] show ?thesis by simp
qed

lemma write_socket_data_loop_prefix:
  "write_socket_data_loop data left start' sends acc = Some (r, sent)
   \<Longrightarrow> Send_ENOBUFS \<notin> set sends \<Longrightarrow> (\<forall>n. Sent n \<in> set sends \<longrightarrow> 0 \<le> n)
   \<Longrightarrow> 0 \<le> start' \<Longrightarrow> concat acc = map data [0..start' - 1]
   \<Longrightarrow> \<exists>k\<ge>0. concat sent = map data [0..k - 1]"
proof (induction sends arbitrary: left start' acc)
  case Nil
  then show ?case by (auto split: if_splits)
next
  case (Cons s sends)
  show ?case
  proof (cases "left > 0")
    case False
    then show ?thesis using Cons.prems by auto
  next
    case True
    show ?thesis
    proof (cases s)
      case (Sent n)
      have n0: "0 \<le> n" using Cons.prems(3) Sent by simp
      have step: "write_socket_data_loop data (left - n) (start' + n) sends
                    (acc @ [map data [start'..start' + n - 1]]) = Some (r, sent)"
        using Cons.prems(1) True Sent by simp
      have acc': "concat (acc @ [map data [start'..start' + n - 1]])
                    = map data [0..start' + n - 1]"
        using Cons.prems(5) upto_append_from_0 [OF Cons.prems(4) n0]
        by (simp flip: map_append)
      show ?thesis
        using Cons.IH [OF step _ _ _ acc'] Cons.prems(2,3,4) n0 by auto
    next
      case Send_ENOBUFS
      then show ?thesis using Cons.prems(2) by simp
    next
      case Send_error
      then show ?thesis using Cons.prems True by auto
    qed
  qed
qed

text \<open>
  C8, as amended. \<^verbatim>\<open>write_socket_data\<close>, which writes for the TCP and UDP sinks and for the
  consumer of the circular buffer, refuses a payload whose first byte is not \<open>0x47\<close>: it
  returns 0 and \<^verbatim>\<open>send\<close> is not called. Whenever it has sent anything, the payload begins
  with \<open>0x47\<close>; and if no \<^verbatim>\<open>send\<close> failed with \<^verbatim>\<open>ENOBUFS\<close>, the bytes sent, one array
  after the other, are the first \<open>k\<close> bytes of the payload for some \<open>k\<close>, so that they begin
  with \<open>0x47\<close>. (\<^verbatim>\<open>write_file_data\<close>, which writes for standard output and files, makes no
  such test: see the counterexample.)
\<close>

theorem write_socket_data_sync:
  "(data 0 \<noteq> 0x47 \<longrightarrow> write_socket_data data data_len sends = Some (0, []))
   \<and> (write_socket_data data data_len sends = Some (r, sent) \<and> sent \<noteq> [] \<longrightarrow> data 0 = 0x47)
   \<and> (write_socket_data data data_len sends = Some (r, sent)
        \<and> Send_ENOBUFS \<notin> set sends \<and> (\<forall>n. Sent n \<in> set sends \<longrightarrow> 0 \<le> n)
        \<longrightarrow> (\<exists>k\<ge>0. concat sent = map data [0..k - 1])
            \<and> (concat sent \<noteq> [] \<longrightarrow> hd (concat sent) = 0x47))"
proof -
  have a: "data 0 \<noteq> 0x47 \<longrightarrow> write_socket_data data data_len sends = Some (0, [])"
    by (simp add: write_socket_data_def)
  have b: "write_socket_data data data_len sends = Some (r, sent) \<and> sent \<noteq> [] \<longrightarrow> data 0 = 0x47"
    by (auto simp: write_socket_data_def split: if_splits)
  have c: "(\<exists>k\<ge>0. concat sent = map data [0..k - 1])
            \<and> (concat sent \<noteq> [] \<longrightarrow> hd (concat sent) = 0x47)"
    if ret: "write_socket_data data data_len sends = Some (r, sent)"
      and nb: "Send_ENOBUFS \<notin> set sends" and nn: "\<forall>n. Sent n \<in> set sends \<longrightarrow> 0 \<le> n"
  proof (cases "data 0 = 0x47")
    case False
    then have "sent = []" using ret by (simp add: write_socket_data_def)
    then show ?thesis by (auto intro: exI [of _ 0])
  next
    case True
    then have "write_socket_data_loop data data_len 0 sends [] = Some (r, sent)"
      using ret by (simp add: write_socket_data_def)
    from write_socket_data_loop_prefix [OF this nb nn]
    obtain k where k: "0 \<le> k" "concat sent = map data [0..k - 1]" by auto
    have "hd (concat sent) = 0x47" if "concat sent \<noteq> []"
    proof -
      from that k have "0 < k" by (cases "k = 0") auto
      then have "[0..k - 1] = 0 # [1..k - 1]" by (simp add: upto_rec1)
      then show ?thesis using k True by simp
    qed
    then show ?thesis using k by auto
  qed
  show ?thesis using a b c by blast
qed

text \<open>
  The theorem at work: a payload of zeros is refused; a payload of 188 bytes \<open>0x47\<close> goes
  out in two parts.
\<close>

theorem write_socket_data_sync_witness:
  "write_socket_data (\<lambda>_. 0) 188 [Sent 188] = Some (0, [])
   \<and> write_socket_data (\<lambda>_. 0x47) 188 [Sent 100, Sent 88]
       = Some (0, [map (\<lambda>_. 0x47) [0..99], map (\<lambda>_. 0x47) [100..187]])
   \<and> hd (concat [map (\<lambda>_. 0x47 :: 8 word) [0..99], map (\<lambda>_. 0x47) [100..187]]) = 0x47"
proof -
  have ev: "write_socket_data (\<lambda>_. 0x47) 188 [Sent 100, Sent 88]
              = Some (0, [map (\<lambda>_. 0x47) [0..99], map (\<lambda>_. 0x47) [100..187]])"
    by (simp add: write_socket_data_def)
  have ne: "concat [map (\<lambda>_. 0x47 :: 8 word) [0..99], map (\<lambda>_. 0x47) [100..187]] \<noteq> []"
    by (simp add: upto_rec1)
  show ?thesis
    using write_socket_data_sync [of "\<lambda>_. 0" 188 "[Sent 188]"]
      write_socket_data_sync [of "\<lambda>_. 0x47" 188 "[Sent 100, Sent 88]" 0
        "[map (\<lambda>_. 0x47) [0..99], map (\<lambda>_. 0x47) [100..187]]"] ev ne
    by auto
qed

text \<open>
  Against C8 as it is stated (for every sink variant): \<^verbatim>\<open>write_file_data\<close>, given 188 zero
  bytes that \<^verbatim>\<open>fwrite\<close> writes in full, returns 0 and has written 188 bytes of which the
  first is 0, not \<open>0x47\<close>.
\<close>

theorem write_file_data_no_sync_test:
  "fst (write_file_data (\<lambda>_. 0) 188 188) = 0
   \<and> length (snd (write_file_data (\<lambda>_. 0) 188 188)) = 188
   \<and> hd (snd (write_file_data (\<lambda>_. 0) 188 188)) = 0"
  by (simp add: write_file_data_def upto_rec1)

text \<open>
  What the amended claim leaves out: after a \<^verbatim>\<open>send\<close> that failed with \<^verbatim>\<open>ENOBUFS\<close> the
  loop has moved its position one byte back and its count one byte up, so the next
  \<^verbatim>\<open>send\<close> is given the byte in front of the payload and then the payload.
\<close>

lemma write_socket_data_after_ENOBUFS:
  "data 0 = 0x47 \<Longrightarrow>
   write_socket_data data 188 [Send_ENOBUFS, Sent 189] = Some (0, [map data [- 1..187]])"
  by (simp add: write_socket_data_def)

subsection \<open>C5: the end-of-file item\<close>

lemmas producer_example_defs =
  example_writer_def
  build_buffered_TS_output_def map_circular_buffer_def write_to_buffered_TS_output_def
  write_EOF_to_buffered_TS_output_def add_eof_entry_def
  internal_flush_buffered_TS_output_def set_buffer_item_time_def set_buffer_item_time_pcr_def
  set_buffer_item_time_plain_def set_buffer_item_time_pcr_prime_def set_buffer_item_time_pcr_found_def
  num_microseconds_def find_pcr_def set_item_time_def fdiv_def to_uint32_def to_uint64_def trunc_def
  memcpy_def circular_buffer_full_def circular_buffer_empty_def c_rem_def time_statics_init_def
  example_packet_def Let_def


text \<open>
  A time stamp goes into the header of the slot \<^verbatim>\<open>writer->which\<close> and nowhere else; it is
  the newest stamp of the statics.
\<close>

lemma set_buffer_item_time_writer:
  assumes "set_buffer_item_time writer st = Some (w2, st2)"
  shows "w2 = set_item_time writer (if use_pcrs writer then last_timestamp st2 else last_time st2)"
  using assms
  by (auto simp: set_buffer_item_time_def set_buffer_item_time_pcr_def
        set_buffer_item_time_plain_def bind_eq_Some_conv Let_def split: if_splits)

lemma add_eof_entry_Returned:
  assumes "add_eof_entry w1 st1 = Returned (r, w', st')"
  shows "r = 0
       \<and> \<not> circular_buffer_full (buffer w1)
       \<and> end' (buffer w') = c_rem (end' (buffer w1) + 1) (size' (buffer w1))
       \<and> length' (item (buffer w') (end' (buffer w'))) = 1
       \<and> item_data (buffer w') (end' (buffer w') * item_size (buffer w')) = 1
       \<and> (which w1 = c_rem (end' (buffer w1) + 1) (size' (buffer w1)) \<longrightarrow>
            time (item (buffer w') (end' (buffer w')))
              = (if use_pcrs w1 then last_timestamp st' else last_time st'))
       \<and> start (buffer w') = start (buffer w1)
       \<and> size' (buffer w') = size' (buffer w1)
       \<and> item_size (buffer w') = item_size (buffer w1)"
proof -
  have nf: "\<not> circular_buffer_full (buffer w1)"
    using assms by (auto simp: add_eof_entry_def split: if_splits)
  obtain w2 st2 where s: "set_buffer_item_time w1 st1 = Some (w2, st2)"
    using assms nf by (auto simp: add_eof_entry_def Let_def split: option.splits)
  note t = set_buffer_item_time_writer [OF s]
  have st2: "st2 = st'"
    using assms nf s by (auto simp: add_eof_entry_def Let_def)
  show ?thesis
    using assms nf s t st2
    by (auto simp: add_eof_entry_def Let_def set_item_time_def)
qed

lemma internal_flush_Some:
  assumes "internal_flush_buffered_TS_output writer st = Some (w1, st1)"
  shows "end' (buffer w1) = which writer
       \<and> which w1 = c_rem (end' (buffer w1) + 1) (size' (buffer w1))
       \<and> \<not> started w1 \<and> num_packets w1 = 0
       \<and> use_pcrs w1 = use_pcrs writer
       \<and> start (buffer w1) = start (buffer writer)
       \<and> size' (buffer w1) = size' (buffer writer)
       \<and> item_size (buffer w1) = item_size (buffer writer)
       \<and> item_data (buffer w1) = item_data (buffer writer)
       \<and> (\<forall>i. length' (item (buffer w1) i) = length' (item (buffer writer) i))"
proof -
  obtain w2 st2 where s: "set_buffer_item_time writer st = Some (w2, st2)"
    using assms by (auto simp: internal_flush_buffered_TS_output_def bind_eq_Some_conv)
  note t = set_buffer_item_time_writer [OF s]
  show ?thesis
    using assms s t
    by (auto simp: internal_flush_buffered_TS_output_def bind_eq_Some_conv Let_def set_item_time_def)
qed


lemma received_EOF_releases:
  "fst (received_EOF circular) \<Longrightarrow>
     snd (received_EOF circular)
       = circular\<lparr>start := c_rem (start circular + 1) (size' circular)\<rparr>"
  by (simp add: received_EOF_def Let_def split: if_splits)





lemma tswrite_child_process_at_EOF:
  assumes "\<not> (starting cst \<and> \<not> circular_buffer_full circular)"
    "\<not> (\<not> starting cst \<and> circular_buffer_empty circular)"
    "fst (received_EOF circular)"
  shows "tswrite_child_process rng circular cst ((now, perturb, sends) # rest)
           = Returned (0, circular\<lparr>start := c_rem (start circular + 1) (size' circular)\<rparr>,
                       cst\<lparr>count_items := count_items cst + 1, starting := False\<rparr>, [])"
  using assms received_EOF_releases [of circular]
  by (auto simp: write_from_circular_def Let_def)

text \<open>
  The producer's next slot is the one after \<^verbatim>\<open>end\<close>: so the buffer is built, and every
  call of \<^verbatim>\<open>write_to_buffered_TS_output\<close> keeps it so.
\<close>

lemma build_buffered_TS_output_which:
  "build_buffered_TS_output a m n k mnw wtf rt up ps psu sc = Some w
   \<Longrightarrow> which w = c_rem (end' (buffer w) + 1) (size' (buffer w)) \<and> \<not> started w"
  by (auto simp: build_buffered_TS_output_def split: if_splits option.splits)

lemma write_to_buffered_TS_output_which:
  assumes "write_to_buffered_TS_output w st pk n pd gp pc = Returned (r, w', st')"
    and "which w = c_rem (end' (buffer w) + 1) (size' (buffer w))"
  shows "which w' = c_rem (end' (buffer w') + 1) (size' (buffer w'))"
proof -
  have *: "\<And>x u st3. internal_flush_buffered_TS_output x st = Some (u, st3)
        \<Longrightarrow> which u = c_rem (end' (buffer u) + 1) (size' (buffer u))"
    using internal_flush_Some by blast
  show ?thesis
    using assms *
    by (auto simp: write_to_buffered_TS_output_def Let_def
          split: if_splits option.splits)
qed




subsection \<open>C4: the full and empty tests, and the capacity\<close>

text \<open>
  On a non-negative \<^verbatim>\<open>end\<close> and a positive size, C's \<^verbatim>\<open>%\<close> is \<open>mod\<close>, and the two tests are
  the ones of the claim.
\<close>

lemma c_rem_mod: "0 \<le> a \<Longrightarrow> 0 < b \<Longrightarrow> c_rem a b = a mod b"
proof -
  assume a: "0 \<le> a" and b: "0 < b"
  have "c_rem a b = a - b * (sgn a * (a div b))" using a b by (simp add: c_rem_def)
  also have "\<dots> = a - b * (a div b)" using a b
    by (cases "a = 0") (simp_all add: sgn_if)
  also have "\<dots> = a mod b" by (simp add: minus_mult_div_eq_mod)
  finally show ?thesis .
qed

lemma circular_buffer_predicates:
  assumes "0 \<le> end' circular" "0 < size' circular"
  shows "(circular_buffer_empty circular
            \<longleftrightarrow> start circular = (end' circular + 1) mod size' circular)
       \<and> (circular_buffer_full circular
            \<longleftrightarrow> (end' circular + 2) mod size' circular = start circular)"
  using assms by (simp add: circular_buffer_empty_def circular_buffer_full_def c_rem_mod)

text \<open>
  With two slots or more the two tests never hold together, whatever \<^verbatim>\<open>start\<close> is: the
  slot after \<^verbatim>\<open>end\<close> and the slot after that are different slots.
\<close>

lemma circular_buffer_not_full_and_empty:
  assumes "0 \<le> end' circular" "2 \<le> size' circular"
  shows "\<not> (circular_buffer_full circular \<and> circular_buffer_empty circular)"
proof
  assume fe: "circular_buffer_full circular \<and> circular_buffer_empty circular"
  let ?n = "size' circular" and ?e = "end' circular"
  have "(?e + 2) mod ?n = (?e + 1) mod ?n"
    using fe circular_buffer_predicates [of circular] assms by simp
  then have "?n dvd (?e + 2) - (?e + 1)" by (simp only: mod_eq_dvd_iff)
  then have "?n dvd 1" by simp
  then show False using assms(2) by simp
qed

text \<open>
  With two slots or more, and \<open>d\<close> items committed and not yet given up as in the
  invariant, the buffer is full exactly if \<open>d = n - 1\<close> and empty exactly if \<open>d = 0\<close>.
\<close>

lemma circular_buffer_full_iff:
  assumes "2 \<le> n" "size' c = n" "0 \<le> e" "end' c = e" "0 \<le> d" "d \<le> n - 1"
    "start c = (e + 1 - d) mod n"
  shows "circular_buffer_full c \<longleftrightarrow> d = n - 1"
proof -
  have "circular_buffer_full c \<longleftrightarrow> (e + 2) mod n = (e + 1 - d) mod n"
    using assms by (simp add: circular_buffer_full_def c_rem_mod)
  also have "\<dots> \<longleftrightarrow> n dvd (e + 2) - (e + 1 - d)" by (simp only: mod_eq_dvd_iff)
  also have "(e + 2) - (e + 1 - d) = d + 1" by simp
  also have "n dvd d + 1 \<longleftrightarrow> d = n - 1"
  proof
    assume dv: "n dvd d + 1"
    have "0 < d + 1" using assms(5) by simp
    from zdvd_imp_le [OF dv this] assms(6) show "d = n - 1" by simp
  next
    assume "d = n - 1"
    then show "n dvd d + 1" by simp
  qed
  finally show ?thesis .
qed

lemma circular_buffer_empty_iff:
  assumes "2 \<le> n" "size' c = n" "0 \<le> e" "end' c = e" "0 \<le> d" "d \<le> n - 1"
    "start c = (e + 1 - d) mod n"
  shows "circular_buffer_empty c \<longleftrightarrow> d = 0"
proof -
  have "circular_buffer_empty c \<longleftrightarrow> (e + 1 - d) mod n = (e + 1) mod n"
    using assms by (simp add: circular_buffer_empty_def c_rem_mod)
  also have "\<dots> \<longleftrightarrow> n dvd (e + 1 - d) - (e + 1)" by (simp only: mod_eq_dvd_iff)
  also have "(e + 1 - d) - (e + 1) = - d" by simp
  also have "n dvd - d \<longleftrightarrow> d = 0"
  proof
    assume "n dvd - d"
    then have dv: "n dvd d" by simp
    show "d = 0"
    proof (rule ccontr)
      assume "d \<noteq> 0"
      then have "0 < d" using assms(5) by simp
      from zdvd_imp_le [OF dv this] assms(6) show False by simp
    qed
  next
    assume "d = 0"
    then show "n dvd - d" by simp
  qed
  finally show ?thesis .
qed


text \<open>
  What a call that returns does to the indices.
\<close>

lemma write_to_buffered_TS_output_ring:
  assumes "write_to_buffered_TS_output w st pk i pd gp pc = Returned (r, w', st')"
  shows "(\<not> started w \<longrightarrow> \<not> circular_buffer_full (buffer w))
       \<and> size' (buffer w') = size' (buffer w)
       \<and> start (buffer w') = start (buffer w)
       \<and> (if started w' then end' (buffer w') = end' (buffer w) \<and> which w' = which w
          else end' (buffer w') = which w
               \<and> which w' = c_rem (which w + 1) (size' (buffer w)))"
proof -
  have *: "\<And>x u st3. internal_flush_buffered_TS_output x st = Some (u, st3)
        \<Longrightarrow> end' (buffer u) = which x
            \<and> which u = c_rem (end' (buffer u) + 1) (size' (buffer u))
            \<and> \<not> started u
            \<and> start (buffer u) = start (buffer x)
            \<and> size' (buffer u) = size' (buffer x)"
    using internal_flush_Some by blast
  show ?thesis
    using assms
    by (auto simp: write_to_buffered_TS_output_def Let_def
          split: if_splits option.splits dest!: *)
qed

lemma write_from_circular_ring:
  assumes "write_from_circular rng circular cst now perturb sends
             = Returned (r, had_eof, circular', cst', slept, sent)"
  shows "(if starting cst then circular_buffer_full circular
          else \<not> circular_buffer_empty circular)
       \<and> start circular' = c_rem (start circular + 1) (size' circular)
       \<and> end' circular' = end' circular
       \<and> size' circular' = size' circular"
proof -
  have go: "if starting cst then circular_buffer_full circular
            else \<not> circular_buffer_empty circular"
    using assms by (auto simp: write_from_circular_def Let_def split: if_splits)
  show ?thesis
  proof (cases "fst (received_EOF circular)")
    case True
    then have "circular' = snd (received_EOF circular)"
      using assms by (auto simp: write_from_circular_def Let_def split: if_splits)
    then show ?thesis using go received_EOF_releases [OF True] by simp
  next
    case False
    then obtain e c2 sn where
      w: "write_circular_data circular sends = Some (e, c2, sn)" and c: "circular' = c2"
      using assms
      by (auto simp: write_from_circular_def Let_def split: if_splits option.splits)
    from w have "c2 = circular\<lparr>item_data := (item_data circular)
                                  (start circular * item_size circular := 0),
                               start := c_rem (start circular + 1) (size' circular)\<rparr>"
      by (auto simp: write_circular_data_def Let_def split: option.splits)
    then show ?thesis using go c by simp
  qed
qed

text \<open>
  The invariant holds at the start and every step keeps it: a commit, a release, a
  packet added to an open item.
\<close>

lemma ring_invariant_built:
  assumes "build_buffered_TS_output True True n k mnw wtf rt up ps psu sc = Some w"
    and "2 \<le> n"
  shows "ring_invariant n \<lparr>producer = w, producer_statics = time_statics_init,
                       consumer = consumer_statics_init, eof_written = False,
                       committed = 0, released = 0\<rparr>"
proof -
  have "size' (buffer w) = n \<and> end' (buffer w) = 0 \<and> start (buffer w) = 1
        \<and> which w = c_rem 1 n \<and> \<not> started w"
    using assms(1)
    by (auto simp: build_buffered_TS_output_def map_circular_buffer_def)
  moreover have "c_rem 1 n = 1 mod n" using assms(2) by (simp add: c_rem_mod)
  ultimately show ?thesis using assms(2) by (simp add: ring_invariant_def)
qed

lemma ring_invariant_commit:
  assumes inv: "ring_invariant n s" and n: "2 \<le> n" and op: "\<not> eof_written s"
    and room: "started (producer s) \<or> \<not> circular_buffer_full (buffer (producer s))"
    and sz: "size' (buffer w') = n"
    and st: "start (buffer w') = start (buffer (producer s))"
    and en: "end' (buffer w') = which (producer s)"
    and wh: "cl \<or> which w' = c_rem (which (producer s) + 1) n"
    and ns: "cl \<or> \<not> started w'"
  shows "ring_invariant n (s\<lparr>producer := w', producer_statics := st', eof_written := cl,
                            committed := committed s + 1\<rparr>)"
proof -
  define c where "c = buffer (producer s)"
  define d where "d = int (committed s) - int (released s)"
  define e where "e = end' c"
  have i: "size' c = n" "0 \<le> e" "e < n" "0 \<le> d" "d \<le> n - 1"
    "start c = (e + 1 - d) mod n" "which (producer s) = (e + 1) mod n"
    "started (producer s) \<longrightarrow> d < n - 1" "end' c = e"
    using inv op by (simp_all add: ring_invariant_def Let_def c_def d_def e_def)
  have full: "circular_buffer_full c \<longleftrightarrow> d = n - 1"
    by (rule circular_buffer_full_iff [OF n i(1) i(2) i(9) i(4) i(5) i(6)])
  have d: "d < n - 1"
    using room i(8) full i(5) unfolding c_def by auto
  let ?e = "(e + 1) mod n"
  have e': "0 \<le> ?e" "?e < n" using n by simp_all
  have s': "(e + 1 - d) mod n = (?e + 1 - (d + 1)) mod n"
  proof -
    have "(?e + 1 - (d + 1)) = ?e - d" by simp
    also have "(?e - d) mod n = (e + 1 - d) mod n" by (rule mod_diff_left_eq)
    finally show ?thesis by simp
  qed
  have w': "c_rem (?e + 1) n = (?e + 1) mod n"
    using e' n by (simp add: c_rem_mod)
  let ?s' = "s\<lparr>producer := w', producer_statics := st', eof_written := cl,
                 committed := committed s + 1\<rparr>"
  have b: "buffer (producer ?s') = buffer w'" "eof_written ?s' = cl"
    "int (committed ?s') - int (released ?s') = d + 1"
    "which (producer ?s') = which w'" "started (producer ?s') = started w'"
    by (simp_all add: d_def)
  have E: "end' (buffer w') = ?e" using en i(7) by simp
  have S: "start (buffer w') = (?e + 1 - (d + 1)) mod n"
    using st i(6) s' by (simp add: c_def)
  have W: "\<not> cl \<longrightarrow> which w' = (?e + 1) mod n" using wh i(7) w' by auto
  have D: "0 \<le> d + 1" "d + 1 \<le> n - 1" using i(4) d by simp_all
  have N: "\<not> cl \<and> started w' \<longrightarrow> d + 1 < n - 1" using ns by blast
  have "size' (buffer w') = n
      \<and> 0 \<le> end' (buffer w') \<and> end' (buffer w') < n
      \<and> 0 \<le> d + 1 \<and> d + 1 \<le> n - 1
      \<and> start (buffer w') = (end' (buffer w') + 1 - (d + 1)) mod n
      \<and> (\<not> cl \<longrightarrow> which w' = (end' (buffer w') + 1) mod n)
      \<and> (\<not> cl \<and> started w' \<longrightarrow> d + 1 < n - 1)"
    unfolding E using sz e' D S W N by blast
  then show ?thesis unfolding ring_invariant_def Let_def b .
qed

lemma ring_invariant_release:
  assumes inv: "ring_invariant n s" and n: "2 \<le> n"
    and go: "circular_buffer_full (buffer (producer s))
             \<or> \<not> circular_buffer_empty (buffer (producer s))"
    and sz: "size' c' = n"
    and st: "start c' = c_rem (start (buffer (producer s)) + 1) n"
    and en: "end' c' = end' (buffer (producer s))"
  shows "ring_invariant n (s\<lparr>producer := (producer s)\<lparr>buffer := c'\<rparr>, consumer := cst',
                            released := released s + 1\<rparr>)"
proof -
  define c where "c = buffer (producer s)"
  define d where "d = int (committed s) - int (released s)"
  define e where "e = end' c"
  have i: "size' c = n" "0 \<le> e" "e < n" "0 \<le> d" "d \<le> n - 1"
    "start c = (e + 1 - d) mod n" "\<not> eof_written s \<longrightarrow> which (producer s) = (e + 1) mod n"
    "\<not> eof_written s \<and> started (producer s) \<longrightarrow> d < n - 1" "end' c = e"
    using inv by (simp_all add: ring_invariant_def Let_def c_def d_def e_def)
  have full: "circular_buffer_full c \<longleftrightarrow> d = n - 1"
    by (rule circular_buffer_full_iff [OF n i(1) i(2) i(9) i(4) i(5) i(6)])
  have empty: "circular_buffer_empty c \<longleftrightarrow> d = 0"
    by (rule circular_buffer_empty_iff [OF n i(1) i(2) i(9) i(4) i(5) i(6)])
  have d: "1 \<le> d"
    using go full empty i(4) n unfolding c_def [symmetric] by auto
  have s0: "0 \<le> start c" using i(6) n by simp
  have "start c' = (start c + 1) mod n"
    using st s0 n by (simp add: c_def c_rem_mod)
  also have "\<dots> = ((e + 1 - d) mod n + 1) mod n" by (simp only: i(6))
  also have "\<dots> = (e + 1 - d + 1) mod n" by (rule mod_add_left_eq)
  also have "e + 1 - d + 1 = e + 1 - (d - 1)" by simp
  finally have S: "start c' = (e + 1 - (d - 1)) mod n" .
  let ?s' = "s\<lparr>producer := (producer s)\<lparr>buffer := c'\<rparr>, consumer := cst',
                 released := released s + 1\<rparr>"
  have b: "buffer (producer ?s') = c'" "eof_written ?s' = eof_written s"
    "int (committed ?s') - int (released ?s') = d - 1"
    "which (producer ?s') = which (producer s)"
    "started (producer ?s') = started (producer s)"
    by (simp_all add: d_def)
  have E: "end' c' = e" using en by (simp add: e_def c_def)
  have D: "0 \<le> d - 1" "d - 1 \<le> n - 1" using d i(5) by simp_all
  have N: "\<not> eof_written s \<and> started (producer s) \<longrightarrow> d - 1 < n - 1" using i(5) by simp
  have "size' c' = n
      \<and> 0 \<le> end' c' \<and> end' c' < n
      \<and> 0 \<le> d - 1 \<and> d - 1 \<le> n - 1
      \<and> start c' = (end' c' + 1 - (d - 1)) mod n
      \<and> (\<not> eof_written s \<longrightarrow> which (producer s) = (end' c' + 1) mod n)
      \<and> (\<not> eof_written s \<and> started (producer s) \<longrightarrow> d - 1 < n - 1)"
    unfolding E using sz i(2) i(3) D S i(7) N by blast
  then show ?thesis unfolding ring_invariant_def Let_def b .
qed

lemma ring_invariant_keep:
  assumes inv: "ring_invariant n s" and n: "2 \<le> n" and op: "\<not> eof_written s"
    and room: "started (producer s) \<or> \<not> circular_buffer_full (buffer (producer s))"
    and sz: "size' (buffer w') = n"
    and st: "start (buffer w') = start (buffer (producer s))"
    and en: "end' (buffer w') = end' (buffer (producer s))"
    and wh: "which w' = which (producer s)"
  shows "ring_invariant n (s\<lparr>producer := w', producer_statics := st',
                            committed := committed s + 0\<rparr>)"
proof -
  define c where "c = buffer (producer s)"
  define d where "d = int (committed s) - int (released s)"
  define e where "e = end' c"
  have i: "size' c = n" "0 \<le> e" "e < n" "0 \<le> d" "d \<le> n - 1"
    "start c = (e + 1 - d) mod n" "which (producer s) = (e + 1) mod n"
    "started (producer s) \<longrightarrow> d < n - 1" "end' c = e"
    using inv op by (simp_all add: ring_invariant_def Let_def c_def d_def e_def)
  have full: "circular_buffer_full c \<longleftrightarrow> d = n - 1"
    by (rule circular_buffer_full_iff [OF n i(1) i(2) i(9) i(4) i(5) i(6)])
  have d: "d < n - 1"
    using room i(8) full i(5) unfolding c_def by auto
  let ?s' = "s\<lparr>producer := w', producer_statics := st', committed := committed s + 0\<rparr>"
  have b: "buffer (producer ?s') = buffer w'" "eof_written ?s' = eof_written s"
    "int (committed ?s') - int (released ?s') = d"
    "which (producer ?s') = which w'" "started (producer ?s') = started w'"
    by (simp_all add: d_def)
  have E: "end' (buffer w') = e" using en by (simp add: e_def c_def)
  have S: "start (buffer w') = (e + 1 - d) mod n" using st i(6) by (simp add: c_def)
  have W: "which w' = (e + 1) mod n" using wh i(7) by simp
  have "size' (buffer w') = n
      \<and> 0 \<le> end' (buffer w') \<and> end' (buffer w') < n
      \<and> 0 \<le> d \<and> d \<le> n - 1
      \<and> start (buffer w') = (end' (buffer w') + 1 - d) mod n
      \<and> (\<not> eof_written s \<longrightarrow> which w' = (end' (buffer w') + 1) mod n)
      \<and> (\<not> eof_written s \<and> started w' \<longrightarrow> d < n - 1)"
    unfolding E using sz i(2) i(3) i(4) i(5) S W d by blast
  then show ?thesis unfolding ring_invariant_def Let_def b .
qed

lemma reachable_ring_invariant:
  assumes "reachable n s" and n: "2 \<le> n"
  shows "ring_invariant n s"
  using assms(1)
proof (induction rule: reachable.induct)
  case (built k mnw wtf rt up ps psu sc w)
  then show ?case using ring_invariant_built n by blast
next
  case (written s pk i pd gp pc r w' st')
  note e = write_to_buffered_TS_output_ring [OF written.hyps(3)]
  have sz: "size' (buffer (producer s)) = n"
    using written.IH by (simp add: ring_invariant_def Let_def)
  have room: "started (producer s) \<or> \<not> circular_buffer_full (buffer (producer s))"
    using e by blast
  show ?case
  proof (cases "started w'")
    case True
    have "ring_invariant n (s\<lparr>producer := w', producer_statics := st',
                             committed := committed s + 0\<rparr>)"
      by (rule ring_invariant_keep [OF written.IH n written.hyps(2) room])
         (use e True sz in simp_all)
    then show ?thesis using True by simp
  next
    case False
    have "ring_invariant n (s\<lparr>producer := w', producer_statics := st', eof_written := False,
                             committed := committed s + 1\<rparr>)"
      by (rule ring_invariant_commit [OF written.IH n written.hyps(2) room])
         (use e False sz in simp_all)
    moreover have "s\<lparr>producer := w', producer_statics := st', eof_written := False,
                     committed := committed s + 1\<rparr>
                 = s\<lparr>producer := w', producer_statics := st',
                     committed := committed s + (if started w' then 0 else 1)\<rparr>"
      using False written.hyps(2) by simp
    ultimately show ?thesis by simp
  qed
next
  case (flushed s w' st')
  note e = internal_flush_Some [OF flushed.hyps(5)]
  have sz: "size' (buffer (producer s)) = n"
    using flushed.IH by (simp add: ring_invariant_def Let_def)
  have "ring_invariant n (s\<lparr>producer := w', producer_statics := st', eof_written := False,
                           committed := committed s + 1\<rparr>)"
    by (rule ring_invariant_commit [OF flushed.IH n flushed.hyps(2)])
       (use e flushed.hyps(3) sz in simp_all)
  moreover have "s\<lparr>producer := w', producer_statics := st', eof_written := False,
                   committed := committed s + 1\<rparr>
               = s\<lparr>producer := w', producer_statics := st',
                   committed := committed s + 1\<rparr>"
    using flushed.hyps(2) by simp
  ultimately show ?case by simp
next
  case (ended s r w' st')
  note e = add_eof_entry_Returned [OF ended.hyps(4)]
  have i: "size' (buffer (producer s)) = n"
    "which (producer s) = (end' (buffer (producer s)) + 1) mod n"
    "0 \<le> end' (buffer (producer s))"
    using ended.IH ended.hyps(2) by (simp_all add: ring_invariant_def Let_def)
  have en: "end' (buffer w') = which (producer s)"
    using e i n by (simp add: c_rem_mod)
  show ?case
    by (rule ring_invariant_commit [OF ended.IH n ended.hyps(2)])
       (use e en i in simp_all)
next
  case (read s rng now perturb sends r had_eof circular' cst' slept sent)
  note e = write_from_circular_ring [OF read.hyps(2)]
  have sz: "size' (buffer (producer s)) = n"
    using read.IH by (simp add: ring_invariant_def Let_def)
  show ?case
    by (rule ring_invariant_release [OF read.IH n])
       (use e sz in \<open>auto split: if_splits\<close>)
qed

text \<open>
  So with two slots or more, in every reachable state: the two tests do not hold
  together, the items committed and not yet given up number at most \<open>n - 1\<close>, the buffer
  is full exactly if they number \<open>n - 1\<close> and empty exactly if there is none.
\<close>

lemma ring_never_full_and_empty:
  assumes "reachable n s" and "2 \<le> n"
  shows "\<not> (circular_buffer_full (buffer (producer s))
            \<and> circular_buffer_empty (buffer (producer s)))
       \<and> released s \<le> committed s
       \<and> int (committed s) - int (released s) \<le> n - 1
       \<and> (circular_buffer_full (buffer (producer s))
            \<longleftrightarrow> int (committed s) - int (released s) = n - 1)
       \<and> (circular_buffer_empty (buffer (producer s)) \<longleftrightarrow> committed s = released s)"
proof -
  note inv = reachable_ring_invariant [OF assms]
  define c where "c = buffer (producer s)"
  define d where "d = int (committed s) - int (released s)"
  define e where "e = end' c"
  have i: "size' c = n" "0 \<le> e" "e < n" "0 \<le> d" "d \<le> n - 1"
    "start c = (e + 1 - d) mod n" "end' c = e"
    using inv by (simp_all add: ring_invariant_def Let_def c_def d_def e_def)
  have full: "circular_buffer_full c \<longleftrightarrow> d = n - 1"
    by (rule circular_buffer_full_iff [OF assms(2) i(1) i(2) i(7) i(4) i(5) i(6)])
  have empty: "circular_buffer_empty c \<longleftrightarrow> d = 0"
    by (rule circular_buffer_empty_iff [OF assms(2) i(1) i(2) i(7) i(4) i(5) i(6)])
  show ?thesis
    using full empty i(4) i(5) assms(2) unfolding c_def [symmetric] d_def by auto
qed


text \<open>
  For instance the buffer of four slots after one packet (one item): the state is
  reachable, and the buffer is neither empty nor full.
\<close>

lemma reachable_example:
  "(case example_writer 4 of
      None \<Rightarrow> False
    | Some w0 \<Rightarrow>
        (case write_to_buffered_TS_output w0 time_statics_init example_packet 0 0 False 0 of
           Returned (r, w, st) \<Rightarrow>
             reachable 4 \<lparr>producer = w, producer_statics = st,
                          consumer = consumer_statics_init, eof_written = False,
                          committed = 1, released = 0\<rparr>
             \<and> \<not> circular_buffer_empty (buffer w) \<and> \<not> circular_buffer_full (buffer w)
         | _ \<Rightarrow> False))"
proof -
  have "\<exists>w0 w st. example_writer 4 = Some w0
          \<and> write_to_buffered_TS_output w0 time_statics_init example_packet 0 0 False 0
              = Returned (0, w, st)
          \<and> \<not> started w"
    by (simp add: producer_example_defs)
  then obtain w0 w st where
    b: "example_writer 4 = Some w0"
    and p: "write_to_buffered_TS_output w0 time_statics_init example_packet 0 0 False 0
              = Returned (0, w, st)"
    and ns: "\<not> started w"
    by blast
  let ?s0 = "\<lparr>producer = w0, producer_statics = time_statics_init,
               consumer = consumer_statics_init, eof_written = False,
               committed = 0, released = 0\<rparr>"
  have r0: "reachable 4 ?s0"
    using b unfolding example_writer_def by (rule reachable.built)
  have "reachable 4 (?s0\<lparr>producer := w, producer_statics := st,
                         committed := committed ?s0 + (if started w then 0 else 1)\<rparr>)"
    by (rule reachable.written [OF r0]) (use p in simp_all)
  then have r1: "reachable 4 \<lparr>producer = w, producer_statics = st,
                          consumer = consumer_statics_init, eof_written = False,
                          committed = 1, released = 0\<rparr>"
    using ns by simp
  from ring_never_full_and_empty [OF r1] have
    "\<not> circular_buffer_empty (buffer w) \<and> \<not> circular_buffer_full (buffer w)"
    by simp
  then show ?thesis using b p r1 by simp
qed

text \<open>
  C4. The claim is about every permitted size, the smallest included; the option
  \<^verbatim>\<open>-buffer\<close> rejects sizes below 1, so the smallest is 1. A buffer of size 1 is set up
  with \<^verbatim>\<open>start = 1\<close> and \<^verbatim>\<open>end = 0\<close>. Modulo 1 both tests compare 0 with \<^verbatim>\<open>start\<close>, which
  is 1: the buffer is neither full nor empty, and stays so, since only the consumer moves
  \<^verbatim>\<open>start\<close> and the consumer waits for the buffer to be full before it reads its first
  item. So the two tests never hold together, but the producer is never made to wait:
  three packets (three items) are written and committed one after the other into the one
  slot, each call returning 0, the third stamped 2256 microseconds, while a call of the
  consumer is still polling for the buffer to fill. Three items have been committed and
  none read, in a buffer whose size is 1.
\<close>

theorem one_slot_buffer_overrun:
  "(case example_writer 1 of
      None \<Rightarrow> False
    | Some w0 \<Rightarrow>
        (case write_packets w0 time_statics_init 0 [example_packet, example_packet, example_packet] of
           Returned (r, w, st) \<Rightarrow>
             r = 0 \<and> \<not> started w \<and> size' (buffer w) = 1
             \<and> start (buffer w) = 1 \<and> end' (buffer w) = 0
             \<and> \<not> circular_buffer_full (buffer w) \<and> \<not> circular_buffer_empty (buffer w)
             \<and> time (item (buffer w) 0) = 2256
             \<and> write_from_circular 0 (buffer w) consumer_statics_init
                  \<lparr>tv_sec = 0, tv_usec = 0\<rparr> 0 [Sent 188] = Polling
         | _ \<Rightarrow> False))"
  by (simp add: producer_example_defs write_from_circular_def consumer_statics_init_def)

subsection \<open>C6: the time stamps of successive items\<close>

text \<open>
  In PCR mode, once the pool has been looked at (and primed if need be), it holds a
  positive number of bytes and a positive time, provided the configuration is one that
  \<^verbatim>\<open>tswrite_process_args\<close> accepts and the rate is at least 1. So the time that an item
  takes is not negative, and the stamp, if it fits into 32 bits, is not smaller than the
  one before.
\<close>

lemma set_buffer_item_time_pcr_prime_positive:
  assumes "set_buffer_item_time_pcr_prime writer st = Some st1"
    and "0 < TS_in_item (buffer writer)" "0 < prime_size writer" "0 < prime_speedup writer"
    and "1 \<le> rate writer"
  shows "0 < available_bytes st1 \<and> 0 < available_time st1 \<and> 1 \<le> pcr_rate st1"
proof -
  let ?st = "if pcr_rate st < 1 then st\<lparr>pcr_rate := real_of_int (rate writer)\<rparr> else st"
  have r: "1 \<le> pcr_rate ?st" using assms(5) by auto
  show ?thesis
  proof (cases "available_bytes ?st \<le> 0 \<or> available_time ?st \<le> 0")
    case False
    then have "st1 = ?st" using assms(1)
      by (simp add: set_buffer_item_time_pcr_prime_def Let_def split: if_splits)
    then show ?thesis using False r by auto
  next
    case True
    let ?bytes = "TS_PACKET_SIZE * TS_in_item (buffer writer) * prime_size writer"
    let ?den = "pcr_rate ?st * real_of_int (prime_speedup writer) / 100"
    have b: "0 < ?bytes" using assms(2,3) by simp
    have d: "0 < ?den" using r assms(4) by simp
    have eq: "available_bytes st1 = ?bytes \<and> available_time st1 = real_of_int ?bytes * 1000000 / ?den
              \<and> pcr_rate st1 = pcr_rate ?st"
      using assms(1) True d
      by (auto simp: set_buffer_item_time_pcr_prime_def Let_def fdiv_def bind_eq_Some_conv
               split: if_splits)
    have rb: "0 < real_of_int ?bytes" using b by (rule of_int_pos)
    have "0 < real_of_int ?bytes * 1000000" using rb by (rule mult_pos_pos) simp
    then have "0 < real_of_int ?bytes * 1000000 / ?den"
      using d by (rule divide_pos_pos)
    then have "0 < available_time st1" using eq by (simp only:)
    moreover have "0 < available_bytes st1" using eq b by (simp only:)
    moreover have "1 \<le> pcr_rate st1" using eq r by (simp only:)
    ultimately show ?thesis by blast
  qed
qed

lemma num_microseconds_nonneg:
  assumes "num_microseconds writer st1 = Some us"
    and "0 \<le> num_packets writer" "0 < available_bytes st1" "0 < available_time st1"
  shows "0 \<le> us"
proof -
  define q where "q = real_of_int (TS_PACKET_SIZE * num_packets writer)
                        / real_of_int (available_bytes st1)"
  have "us = q * available_time st1"
    using assms(1)
    by (auto simp: q_def num_microseconds_def fdiv_def bind_eq_Some_conv split: if_splits)
  moreover have "0 \<le> q"
    unfolding q_def using assms(2,3) by (intro divide_nonneg_pos) simp_all
  ultimately show ?thesis using assms(4) by (simp add: mult_nonneg_nonneg)
qed

lemma to_uint32_add_nonneg:
  assumes "to_uint32 (real (unat a) + us) = Some t" "0 \<le> us"
  shows "a \<le> t"
proof -
  let ?x = "real (unat a) + us"
  have "0 \<le> real (unat a)" by (rule of_nat_0_le_iff)
  then have x0: "0 \<le> ?x" using assms(2) by (rule add_nonneg_nonneg)
  then have tr: "trunc ?x = \<lfloor>?x\<rfloor>" by (simp add: trunc_def)
  have rng: "0 \<le> \<lfloor>?x\<rfloor>" "\<lfloor>?x\<rfloor> < 2 ^ 32" and t: "t = word_of_int \<lfloor>?x\<rfloor>"
    using assms(1) tr by (auto simp: to_uint32_def split: if_splits)
  have "real_of_int (int (unat a)) \<le> ?x" using assms(2) by simp
  then have "int (unat a) \<le> \<lfloor>?x\<rfloor>" by (simp only: le_floor_iff)
  moreover have "uint t = \<lfloor>?x\<rfloor>"
    using rng t by (simp add: uint_word_of_int take_bit_int_eq_self)
  ultimately have "uint a \<le> uint t" by simp
  then show ?thesis by (simp add: word_le_def)
qed

lemma set_buffer_item_time_pcr_monotone:
  assumes "set_buffer_item_time_pcr writer st = Some (w', st')"
    and "0 < TS_in_item (buffer writer)" "0 < prime_size writer" "0 < prime_speedup writer"
    and "1 \<le> rate writer" "0 \<le> num_packets writer"
  shows "last_timestamp st \<le> last_timestamp st'
       \<and> time (item (buffer w') (which writer)) = last_timestamp st'
       \<and> (\<exists>st1 us. set_buffer_item_time_pcr_prime writer st = Some st1
                   \<and> num_microseconds writer st1 = Some us \<and> 0 \<le> us
                   \<and> to_uint32 (real (unat (last_timestamp st)) + us) = Some (last_timestamp st'))"
proof -
  obtain st1 us ts st3 where
    p: "set_buffer_item_time_pcr_prime writer st = Some st1"
    and u: "num_microseconds writer st1 = Some us"
    and c: "to_uint32 (real (unat (last_timestamp st1)) + us) = Some ts"
    and r: "w' = set_item_time writer ts" "st' = st3\<lparr>last_timestamp := ts\<rparr>"
    using assms(1)
    by (auto simp: set_buffer_item_time_pcr_def bind_eq_Some_conv Let_def)
  have l: "last_timestamp st1 = last_timestamp st"
    using p by (auto simp: set_buffer_item_time_pcr_prime_def Let_def fdiv_def bind_eq_Some_conv
                     split: if_splits)
  note pos = set_buffer_item_time_pcr_prime_positive [OF p assms(2,3,4,5)]
  have us0: "0 \<le> us" using num_microseconds_nonneg [OF u assms(6)] pos by simp
  have "last_timestamp st \<le> ts" using to_uint32_add_nonneg [OF c us0] l by simp
  then show ?thesis using r p u us0 c l by (auto simp: set_item_time_def)
qed




lemmas timing_example_defs =
  example_pcr_item_def example_plain_item_def example_writer_def
  build_buffered_TS_output_def map_circular_buffer_def
  set_buffer_item_time_def set_buffer_item_time_pcr_def
  set_buffer_item_time_plain_def set_buffer_item_time_pcr_prime_def set_buffer_item_time_pcr_found_def
  num_microseconds_def find_pcr_def set_item_time_def fdiv_def to_uint32_def trunc_def
  c_rem_def time_statics_init_def Let_def





subsection \<open>C7: a PCR that goes backwards\<close>

text \<open>
  What a call of \<^verbatim>\<open>set_buffer_item_time_pcr\<close> on an item with a PCR consists of; the
  priming leaves the memory of earlier PCRs alone.
\<close>

lemma set_buffer_item_time_pcr_prime_keeps:
  assumes "set_buffer_item_time_pcr_prime writer st = Some st1"
  shows "had_first_pcr st1 = had_first_pcr st \<and> had_second_pcr st1 = had_second_pcr st
       \<and> last_pcr st1 = last_pcr st \<and> last_pcr_index st1 = last_pcr_index st
       \<and> last_timestamp st1 = last_timestamp st"
  using assms
  by (auto simp: set_buffer_item_time_pcr_prime_def Let_def fdiv_def bind_eq_Some_conv
           split: if_splits)

lemma set_buffer_item_time_pcr_with_pcr:
  assumes "set_buffer_item_time_pcr writer st = Some (w', st')" "find_pcr writer = Some ii"
  shows "\<exists>st1 us ts st3.
           set_buffer_item_time_pcr_prime writer st = Some st1
           \<and> num_microseconds writer st1 = Some us
           \<and> to_uint32 (real (unat (last_timestamp st1)) + us) = Some ts
           \<and> set_buffer_item_time_pcr_found writer ii ts
                (st1\<lparr>available_bytes := available_bytes st1 - TS_PACKET_SIZE * num_packets writer,
                     available_time := available_time st1 - us\<rparr>) = Some st3
           \<and> st' = st3\<lparr>last_timestamp := ts\<rparr> \<and> w' = set_item_time writer ts"
  using assms
  by (auto simp: set_buffer_item_time_pcr_def bind_eq_Some_conv Let_def)

lemma set_buffer_item_time_pcr_found_discontinuity:
  assumes "set_buffer_item_time_pcr_found writer ii ts st2 = Some st3"
    and "pcr (packet writer ii) < last_pcr st2"
  shows "st3 = st2\<lparr>had_first_pcr := False, had_second_pcr := False,
                   available_bytes := 0, available_time := 0,
                   last_timestamp_near_PCR := ts, last_pcr := pcr (packet writer ii),
                   last_pcr_index := index (packet writer ii)\<rparr>"
  using assms
  by (simp add: set_buffer_item_time_pcr_found_def Let_def)

lemma set_buffer_item_time_pcr_prime_primes:
  assumes "set_buffer_item_time_pcr_prime writer st = Some st1" "available_bytes st \<le> 0"
  shows "available_bytes st1 = TS_PACKET_SIZE * TS_in_item (buffer writer) * prime_size writer
       \<and> available_time st1
           = real_of_int (available_bytes st1) * 1000000
             / (pcr_rate st1 * real_of_int (prime_speedup writer) / 100)
       \<and> pcr_rate st1 = (if pcr_rate st < 1 then real_of_int (rate writer) else pcr_rate st)
       \<and> (\<not> had_second_pcr st \<longrightarrow>
            initial_prime_bytes st1 = available_bytes st1
            \<and> initial_prime_time st1 = available_time st1)"
  using assms
  by (auto simp: set_buffer_item_time_pcr_prime_def Let_def fdiv_def bind_eq_Some_conv
           split: if_splits)

text \<open>
  C7. Let the first PCR found in an item be smaller than \<^verbatim>\<open>last_pcr\<close>, on a writer whose
  configuration \<^verbatim>\<open>tswrite_process_args\<close> accepts, with a rate of at least 1. Then the call
  clears \<^verbatim>\<open>had_first_pcr\<close> and \<^verbatim>\<open>had_second_pcr\<close> and leaves 0 in \<^verbatim>\<open>available_bytes\<close> and
  \<^verbatim>\<open>available_time\<close>; the item's stamp is not smaller than the one before; and the next
  call primes the pool afresh (\<^verbatim>\<open>TS_PACKET_SIZE * TS_in_item * prime_size\<close> bytes and the
  time they take at the prevailing rate, remembered as the initial prime) and gives a
  stamp that is again not smaller than the one before. (Doubles are real numbers in the
  model; a call whose stamp does not fit into 32 bits has no result in it.)
\<close>

theorem pcr_discontinuity:
  assumes "set_buffer_item_time_pcr writer st = Some (w', st')"
    and "find_pcr writer = Some ii" "pcr (packet writer ii) < last_pcr st"
    and "0 < TS_in_item (buffer writer)" "0 < prime_size writer" "0 < prime_speedup writer"
    and "1 \<le> rate writer" "0 \<le> num_packets writer"
  shows "\<not> had_first_pcr st' \<and> \<not> had_second_pcr st'
       \<and> available_bytes st' = 0 \<and> available_time st' = 0
       \<and> last_timestamp st \<le> last_timestamp st'
       \<and> (set_buffer_item_time_pcr next_writer st' = Some (w'', st'')
           \<and> 0 < TS_in_item (buffer next_writer) \<and> 0 < prime_size next_writer
           \<and> 0 < prime_speedup next_writer \<and> 1 \<le> rate next_writer
           \<and> 0 \<le> num_packets next_writer
           \<longrightarrow> (\<exists>st1. set_buffer_item_time_pcr_prime next_writer st' = Some st1
                  \<and> available_bytes st1
                      = TS_PACKET_SIZE * TS_in_item (buffer next_writer) * prime_size next_writer
                  \<and> available_time st1
                      = real_of_int (available_bytes st1) * 1000000
                        / (pcr_rate st1 * real_of_int (prime_speedup next_writer) / 100)
                  \<and> initial_prime_bytes st1 = available_bytes st1
                  \<and> initial_prime_time st1 = available_time st1)
              \<and> last_timestamp st' \<le> last_timestamp st'')"
proof -
  obtain st1 us ts st3 where
    p: "set_buffer_item_time_pcr_prime writer st = Some st1"
    and f: "set_buffer_item_time_pcr_found writer ii ts
                (st1\<lparr>available_bytes := available_bytes st1 - TS_PACKET_SIZE * num_packets writer,
                     available_time := available_time st1 - us\<rparr>) = Some st3"
    and r: "st' = st3\<lparr>last_timestamp := ts\<rparr>"
    using set_buffer_item_time_pcr_with_pcr [OF assms(1,2)] by blast
  have "last_pcr st1 = last_pcr st"
    using set_buffer_item_time_pcr_prime_keeps [OF p] by simp
  then have lt: "pcr (packet writer ii)
                  < last_pcr (st1\<lparr>available_bytes := available_bytes st1 - TS_PACKET_SIZE * num_packets writer,
                     available_time := available_time st1 - us\<rparr>)"
    using assms(3) by simp
  note d = set_buffer_item_time_pcr_found_discontinuity [OF f lt]
  have a: "\<not> had_first_pcr st' \<and> \<not> had_second_pcr st'
           \<and> available_bytes st' = 0 \<and> available_time st' = 0"
    using d r by simp
  have b: "last_timestamp st \<le> last_timestamp st'"
    using set_buffer_item_time_pcr_monotone [OF assms(1,4-8)] by simp
  have c: "(\<exists>st1. set_buffer_item_time_pcr_prime next_writer st' = Some st1
                  \<and> available_bytes st1
                      = TS_PACKET_SIZE * TS_in_item (buffer next_writer) * prime_size next_writer
                  \<and> available_time st1
                      = real_of_int (available_bytes st1) * 1000000
                        / (pcr_rate st1 * real_of_int (prime_speedup next_writer) / 100)
                  \<and> initial_prime_bytes st1 = available_bytes st1
                  \<and> initial_prime_time st1 = available_time st1)
              \<and> last_timestamp st' \<le> last_timestamp st''"
    if n: "set_buffer_item_time_pcr next_writer st' = Some (w'', st'')"
      and cfg: "0 < TS_in_item (buffer next_writer)" "0 < prime_size next_writer"
        "0 < prime_speedup next_writer" "1 \<le> rate next_writer" "0 \<le> num_packets next_writer"
  proof -
    obtain s1 where s1: "set_buffer_item_time_pcr_prime next_writer st' = Some s1"
      using n by (auto simp: set_buffer_item_time_pcr_def bind_eq_Some_conv)
    have "available_bytes st' \<le> 0" using a by simp
    from set_buffer_item_time_pcr_prime_primes [OF s1 this] a s1
      set_buffer_item_time_pcr_monotone [OF n cfg]
    show ?thesis by simp
  qed
  show ?thesis using a b c by blast
qed

lemma example_discontinuity:
  "\<exists>w1 st1 w2 st2 w3 st3.
     set_buffer_item_time_pcr (example_pcr_item 0 1000000) time_statics_init = Some (w1, st1)
     \<and> had_first_pcr st1 \<and> last_pcr st1 = 1000000
     \<and> last_timestamp st1 = 752
     \<and> set_buffer_item_time_pcr (example_pcr_item 1 500) st1 = Some (w2, st2)
     \<and> last_timestamp st2 = 1504
     \<and> set_buffer_item_time_pcr (example_pcr_item 2 20804) st2 = Some (w3, st3)
     \<and> last_timestamp st3 = 2256 \<and> available_bytes st3 = 1692"
  by (simp add: timing_example_defs)

text \<open>
  The theorem at work: three items of one packet each, with the PCRs 1000000, 500 and
  20804. The second PCR is smaller than the first; the stamps are 752, 1504 and 2256, and
  the third item finds the pool primed with 1880 bytes, of which it uses 188.
\<close>

theorem pcr_discontinuity_witness:
  "(case set_buffer_item_time_pcr (example_pcr_item 0 1000000) time_statics_init of
      Some (w1, st1) \<Rightarrow>
        (case set_buffer_item_time_pcr (example_pcr_item 1 500) st1 of
           Some (w2, st2) \<Rightarrow>
             last_pcr st1 = 1000000
             \<and> \<not> had_first_pcr st2 \<and> \<not> had_second_pcr st2
             \<and> available_bytes st2 = 0 \<and> available_time st2 = 0
             \<and> last_timestamp st1 = 752 \<and> last_timestamp st2 = 1504
             \<and> last_timestamp st1 \<le> last_timestamp st2
             \<and> (case set_buffer_item_time_pcr (example_pcr_item 2 20804) st2 of
                   Some (w3, st3) \<Rightarrow>
                     last_timestamp st3 = 2256 \<and> available_bytes st3 = 1692
                     \<and> last_timestamp st2 \<le> last_timestamp st3
                 | None \<Rightarrow> False)
         | None \<Rightarrow> False)
    | None \<Rightarrow> False)"
proof -
  obtain w1 st1 w2 st2 w3 st3 where
    a: "set_buffer_item_time_pcr (example_pcr_item 0 1000000) time_statics_init = Some (w1, st1)"
    and av: "had_first_pcr st1" "last_pcr st1 = 1000000" "last_timestamp st1 = 752"
    and b: "set_buffer_item_time_pcr (example_pcr_item 1 500) st1 = Some (w2, st2)"
    and bv: "last_timestamp st2 = 1504"
    and c: "set_buffer_item_time_pcr (example_pcr_item 2 20804) st2 = Some (w3, st3)"
    and cv: "last_timestamp st3 = 2256" "available_bytes st3 = 1692"
    using example_discontinuity by blast
  have f: "find_pcr (example_pcr_item 1 500) = Some 0"
    by (simp add: example_pcr_item_def find_pcr_def)
  have lt: "pcr (packet (example_pcr_item 1 500) 0) < last_pcr st1"
    using av by (simp add: example_pcr_item_def)
  have cfg: "0 < TS_in_item (buffer (example_pcr_item i p))" "0 < prime_size (example_pcr_item i p)"
    "0 < prime_speedup (example_pcr_item i p)" "1 \<le> rate (example_pcr_item i p)"
    "0 \<le> num_packets (example_pcr_item i p)" for i p
    by (simp_all add: timing_example_defs)
  from pcr_discontinuity [OF b f lt cfg, of "example_pcr_item 2 20804" w3 st3] c cfg
  have "\<not> had_first_pcr st2 \<and> \<not> had_second_pcr st2
        \<and> available_bytes st2 = 0 \<and> available_time st2 = 0
        \<and> last_timestamp st1 \<le> last_timestamp st2
        \<and> last_timestamp st2 \<le> last_timestamp st3"
    by blast
  then show ?thesis using a b c av bv cv by simp
qed

subsection \<open>C1: the rate between two PCRs\<close>

lemma set_buffer_item_time_pcr_found_later:
  assumes "set_buffer_item_time_pcr_found writer ii ts st2 = Some st3"
    and "had_first_pcr st2" "last_pcr st2 \<le> pcr (packet writer ii)"
  shows "real (unat (pcr (packet writer ii))) - real (unat (last_pcr st2)) \<noteq> 0
       \<and> pcr_rate st3
           = real_of_int ((index (packet writer ii) - last_pcr_index st2) * TS_PACKET_SIZE) * 27
             / (real (unat (pcr (packet writer ii))) - real (unat (last_pcr st2))) * 1000000
       \<and> pcr_rate st3 \<noteq> 0
       \<and> available_bytes st3
           = available_bytes st2 + (index (packet writer ii) - last_pcr_index st2) * TS_PACKET_SIZE
       \<and> available_time st3
           = available_time st2
             + real_of_int ((index (packet writer ii) - last_pcr_index st2) * TS_PACKET_SIZE)
               * 1000000 / pcr_rate st3
             + (if had_second_pcr st2 then 0
                else real_of_int (initial_prime_bytes st2) * 1000000 / pcr_rate st3
                     - initial_prime_time st2)
       \<and> had_second_pcr st3"
proof -
  have nlt: "\<not> pcr (packet writer ii) < last_pcr st2" using assms(3) by simp
  have dp: "real (unat (pcr (packet writer ii) - last_pcr st2))
              = real (unat (pcr (packet writer ii))) - real (unat (last_pcr st2))"
    using assms(3) by (simp add: unat_sub word_le_nat_alt of_nat_diff)
  show ?thesis
    using assms(1,2) nlt
    unfolding dp [symmetric]
    by (auto simp: set_buffer_item_time_pcr_found_def Let_def fdiv_def bind_eq_Some_conv
             split: if_splits)
qed


text \<open>
  C1, as amended. Let a call of \<^verbatim>\<open>set_buffer_item_time_pcr\<close> find a PCR in its item when a
  PCR has been seen before (\<^verbatim>\<open>had_first_pcr\<close>) and the new one is not smaller than
  \<^verbatim>\<open>last_pcr\<close>. With \<open>delta_pcr = pcr - last_pcr\<close> and
  \<open>delta_bytes = (index - last_pcr_index) * 188\<close>, the rate becomes
  \<open>delta_bytes * 27 / delta_pcr * 1000000\<close> (bytes per second: 27 MHz ticks), not 27e6
  in the place of 27. The pool, from which the item's own bytes and time have been taken,
  gains \<open>delta_bytes\<close> bytes and \<open>delta_bytes * 1000000 / pcr_rate\<close> microseconds; and if
  this is the second PCR (\<^verbatim>\<open>had_second_pcr\<close> not yet set), \<^verbatim>\<open>available_time\<close> also loses
  \<^verbatim>\<open>initial_prime_time\<close> and gains \<open>initial_prime_bytes * 1000000 / pcr_rate\<close>.
  (Doubles are real numbers in the model; a call that divides by zero, as for
  \<open>delta_pcr = 0\<close>, has no result in it.)
\<close>

theorem pcr_rate_from_two_pcrs:
  assumes "set_buffer_item_time_pcr writer st = Some (w', st')"
    and "find_pcr writer = Some ii" "had_first_pcr st" "last_pcr st \<le> pcr (packet writer ii)"
  shows "\<exists>st1 us.
           set_buffer_item_time_pcr_prime writer st = Some st1
           \<and> num_microseconds writer st1 = Some us
           \<and> real (unat (pcr (packet writer ii))) - real (unat (last_pcr st)) \<noteq> 0
           \<and> pcr_rate st'
               = real_of_int ((index (packet writer ii) - last_pcr_index st) * TS_PACKET_SIZE) * 27
                 / (real (unat (pcr (packet writer ii))) - real (unat (last_pcr st))) * 1000000
           \<and> pcr_rate st' \<noteq> 0
           \<and> available_bytes st'
               = available_bytes st1 - TS_PACKET_SIZE * num_packets writer
                 + (index (packet writer ii) - last_pcr_index st) * TS_PACKET_SIZE
           \<and> available_time st'
               = available_time st1 - us
                 + real_of_int ((index (packet writer ii) - last_pcr_index st) * TS_PACKET_SIZE)
                   * 1000000 / pcr_rate st'
                 + (if had_second_pcr st then 0
                    else real_of_int (initial_prime_bytes st1) * 1000000 / pcr_rate st'
                         - initial_prime_time st1)
           \<and> had_second_pcr st'"
proof -
  obtain st1 us ts st3 where
    p: "set_buffer_item_time_pcr_prime writer st = Some st1"
    and u: "num_microseconds writer st1 = Some us"
    and f: "set_buffer_item_time_pcr_found writer ii ts
                (st1\<lparr>available_bytes := available_bytes st1 - TS_PACKET_SIZE * num_packets writer,
                     available_time := available_time st1 - us\<rparr>) = Some st3"
    and r: "st' = st3\<lparr>last_timestamp := ts\<rparr>"
    using set_buffer_item_time_pcr_with_pcr [OF assms(1,2)] by blast
  let ?st2 = "st1\<lparr>available_bytes := available_bytes st1 - TS_PACKET_SIZE * num_packets writer,
                     available_time := available_time st1 - us\<rparr>"
  note k = set_buffer_item_time_pcr_prime_keeps [OF p]
  have h: "had_first_pcr ?st2" "last_pcr ?st2 \<le> pcr (packet writer ii)"
    using k assms(3,4) by simp_all
  have sel: "had_second_pcr ?st2 = had_second_pcr st"
    "initial_prime_bytes ?st2 = initial_prime_bytes st1"
    "initial_prime_time ?st2 = initial_prime_time st1"
    "available_bytes ?st2 = available_bytes st1 - TS_PACKET_SIZE * num_packets writer"
    "available_time ?st2 = available_time st1 - us"
    "last_pcr ?st2 = last_pcr st" "last_pcr_index ?st2 = last_pcr_index st"
    using k by simp_all
  have sel': "pcr_rate st' = pcr_rate st3" "available_bytes st' = available_bytes st3"
    "available_time st' = available_time st3" "had_second_pcr st' = had_second_pcr st3"
    using r by simp_all
  note l = set_buffer_item_time_pcr_found_later [OF f h, unfolded sel, folded sel']
  have "real (unat (pcr (packet writer ii))) - real (unat (last_pcr st)) \<noteq> 0
           \<and> pcr_rate st'
               = real_of_int ((index (packet writer ii) - last_pcr_index st) * TS_PACKET_SIZE) * 27
                 / (real (unat (pcr (packet writer ii))) - real (unat (last_pcr st))) * 1000000
           \<and> pcr_rate st' \<noteq> 0
           \<and> available_bytes st'
               = available_bytes st1 - TS_PACKET_SIZE * num_packets writer
                 + (index (packet writer ii) - last_pcr_index st) * TS_PACKET_SIZE
           \<and> available_time st'
               = available_time st1 - us
                 + real_of_int ((index (packet writer ii) - last_pcr_index st) * TS_PACKET_SIZE)
                   * 1000000 / pcr_rate st'
                 + (if had_second_pcr st then 0
                    else real_of_int (initial_prime_bytes st1) * 1000000 / pcr_rate st'
                         - initial_prime_time st1)
           \<and> had_second_pcr st'"
    by (rule l)
  then show ?thesis using p u by blast
qed

lemma example_two_pcrs:
  "\<exists>w1 st1 w2 st2.
     set_buffer_item_time_pcr (example_pcr_item 0 0) time_statics_init = Some (w1, st1)
     \<and> had_first_pcr st1 \<and> \<not> had_second_pcr st1 \<and> last_pcr st1 = 0 \<and> last_pcr_index st1 = 0
     \<and> available_bytes st1 = 1692 \<and> available_time st1 = 6768
     \<and> initial_prime_bytes st1 = 1880 \<and> initial_prime_time st1 = 7520
     \<and> set_buffer_item_time_pcr (example_pcr_item 1 20304) st1 = Some (w2, st2)
     \<and> pcr_rate st2 = 250000 \<and> available_bytes st2 = 1692 \<and> available_time st2 = 6768
     \<and> last_timestamp st2 = 1504"
  by (simp add: timing_example_defs)

text \<open>
  The theorem at work: two successive packets with the PCRs 0 and 20304, that is 188
  bytes in 752 microseconds. The rate becomes 250000 bytes per second; since that is the
  rate the pool was primed with, the pool is as it was before the second item.
\<close>

theorem pcr_rate_from_two_pcrs_witness:
  "(case set_buffer_item_time_pcr (example_pcr_item 0 0) time_statics_init of
      Some (w1, st1) \<Rightarrow>
        (case set_buffer_item_time_pcr (example_pcr_item 1 20304) st1 of
           Some (w2, st2) \<Rightarrow>
             had_first_pcr st1 \<and> \<not> had_second_pcr st1
             \<and> last_pcr st1 = 0 \<and> last_pcr_index st1 = 0
             \<and> pcr_rate st2 = (1 - 0) * 188 * 27 / (20304 - 0) * 1000000
             \<and> pcr_rate st2 = 250000
             \<and> available_bytes st2 = 1692 \<and> available_time st2 = 6768
             \<and> had_second_pcr st2
         | None \<Rightarrow> False)
    | None \<Rightarrow> False)"
proof -
  obtain w1 st1 w2 st2 where
    a: "set_buffer_item_time_pcr (example_pcr_item 0 0) time_statics_init = Some (w1, st1)"
    and av: "had_first_pcr st1" "\<not> had_second_pcr st1" "last_pcr st1 = 0"
      "last_pcr_index st1 = 0"
    and b: "set_buffer_item_time_pcr (example_pcr_item 1 20304) st1 = Some (w2, st2)"
    and bv: "pcr_rate st2 = 250000" "available_bytes st2 = 1692" "available_time st2 = 6768"
    using example_two_pcrs by blast
  have f: "find_pcr (example_pcr_item 1 20304) = Some 0"
    by (simp add: example_pcr_item_def find_pcr_def)
  have le: "last_pcr st1 \<le> pcr (packet (example_pcr_item 1 20304) 0)"
    using av by simp
  from pcr_rate_from_two_pcrs [OF b f av(1) le] av
  have "pcr_rate st2 = (1 - 0) * 188 * 27 / (20304 - 0) * 1000000 \<and> had_second_pcr st2"
    by (auto simp: example_pcr_item_def)
  then show ?thesis using a b av bv by simp
qed

text \<open>
  Against C1 as it is stated (\<open>pcr_rate = delta_bytes * 27e6 / delta_pcr * 1e6\<close>): in the
  same run the code's rate is 250000, and the claim's formula gives a million times that.
\<close>

theorem pcr_rate_not_27e6:
  "(case set_buffer_item_time_pcr (example_pcr_item 0 0) time_statics_init of
      Some (w1, st1) \<Rightarrow>
        (case set_buffer_item_time_pcr (example_pcr_item 1 20304) st1 of
           Some (w2, st2) \<Rightarrow>
             had_first_pcr st1 \<and> last_pcr st1 = 0 \<and> last_pcr_index st1 = 0
             \<and> pcr_rate st2 = 250000
             \<and> (1 - 0) * 188 * 27000000 / (20304 - 0) * 1000000 = (250000000000 :: real)
             \<and> pcr_rate st2 \<noteq> (1 - 0) * 188 * 27000000 / (20304 - 0) * 1000000
         | None \<Rightarrow> False)
    | None \<Rightarrow> False)"
proof -
  obtain w1 st1 w2 st2 where
    a: "set_buffer_item_time_pcr (example_pcr_item 0 0) time_statics_init = Some (w1, st1)"
    and av: "had_first_pcr st1" "last_pcr st1 = 0" "last_pcr_index st1 = 0"
    and b: "set_buffer_item_time_pcr (example_pcr_item 1 20304) st1 = Some (w2, st2)"
    and bv: "pcr_rate st2 = 250000"
    using example_two_pcrs by blast
  show ?thesis using a b av bv by simp
qed

end
